theory Spec2Isabelle
  imports Complex_Main "HOL-Library.Word"
begin

section \<open>Engine/TreeRender.cpp: data model\<close>

text \<open>
  Shared pointers are modelled by the identity of the object they point to (a natural
  number); a pointer that may be null is an \<open>option\<close>.
\<close>

type_synonym FrameViewRequestPtr = nat
type_synonym NodePtr = nat
type_synonym NodeGroupPtr = nat
type_synonym EffectInstancePtr = nat
type_synonym KnobHolderPtr = nat
type_synonym OSGLContextPtr = nat
type_synonym RotoDrawableItemPtr = nat

text \<open>
  Modelled from the spec: the enumeration \<open>ActionRetCodeEnum\<close> is declared outside the
  files at hand. The spec lists the status codes OK, Failed and Aborted, "plus domain
  codes from effects (passed through unchanged)".
\<close>

datatype ActionRetCodeEnum =
  eActionStatusOK
| eActionStatusFailed
| eActionStatusAborted
| eActionStatusDomain nat

text \<open>
  Modelled from the spec: \<open>isFailureRetCode\<close> is declared outside the files at hand.
  The spec calls it "the policy predicate: any failure (including abort)", and a task
  failure is a render that "returns non-OK".
\<close>

definition isFailureRetCode :: "ActionRetCodeEnum \<Rightarrow> bool" where
  "isFailureRetCode code = (code \<noteq> eActionStatusOK)"

text \<open>
  Modelled from the spec: the status of a frame/view request, of which the file names
  only \<open>eFrameViewRequestStatusNotRendered\<close>; the spec gives
  \<open>status \<in> {NotRendered, Rendered, Failed, Aborted}\<close>.
\<close>

datatype FrameViewRequestStatusEnum =
  eFrameViewRequestStatusNotRendered
| eFrameViewRequestStatusRendered
| eFrameViewRequestStatusFailed
| eFrameViewRequestStatusAborted

datatype RectI = RectI int int int int
datatype RectD = RectD rat rat rat rat
datatype ImagePlaneDesc = ImagePlaneDesc string nat

text \<open>A null pointer dereference: the only way the modelled functions can go wrong.\<close>

datatype Fault = NullPointerDereference

record CtorArgs =
  time :: rat
  view :: nat
  treeRootEffect :: EffectInstancePtr
  extraNodesToSample :: "NodePtr list"
  activeRotoDrawableItem :: "RotoDrawableItemPtr option"
  canonicalRoI :: RectD
  plane :: ImagePlaneDesc
  proxyScale :: "rat \<times> rat"
  mipMapLevel :: nat
  draftMode :: bool
  playback :: bool
  byPassCache :: bool
  preventConcurrentTreeRenders :: bool

text \<open>
  \<open>struct TreeRenderPrivate\<close>. \<open>extraRequestedResults\<close> is a \<open>std::map\<close> from node
  to a possibly null request: a key that is present with a null request is mapped to
  \<open>Some None\<close>. \<open>aborted\<close> is a \<open>QAtomicInt\<close>, a 32-bit integer.
\<close>

record TreeRenderPrivate =
  ctorArgs :: "CtorArgs option"
  state :: ActionRetCodeEnum
  renderClones :: "KnobHolderPtr list"
  outputRequest :: "FrameViewRequestPtr option"
  extraRequestedResults :: "NodePtr \<rightharpoonup> FrameViewRequestPtr option"
  activeStrokeUpdateArea :: RectI
  activeStrokeUpdateAreaSet :: bool
  openGLContext :: "OSGLContextPtr option"
  cpuOpenGLContext :: "OSGLContextPtr option"
  aborted :: "32 word"
  handleNaNs :: bool
  useConcatenations :: bool

text \<open>
  What the file calls on objects defined elsewhere (effects, nodes, groups, requests,
  settings, the context pool), taken as parameters.
\<close>

record Env =
  isGroupInput :: "EffectInstancePtr \<Rightarrow> bool"
  getNode :: "EffectInstancePtr \<Rightarrow> NodePtr"
  getGroup :: "NodePtr \<Rightarrow> NodeGroupPtr option"
  getRealInputForInput :: "NodeGroupPtr \<Rightarrow> NodePtr \<Rightarrow> NodePtr option"
  getEffectInstance :: "NodePtr \<Rightarrow> EffectInstancePtr"
  getEffect :: "FrameViewRequestPtr \<Rightarrow> EffectInstancePtr"
  settings :: "(bool \<times> bool) option"
  isStroke :: "RotoDrawableItemPtr \<Rightarrow> bool"
  getDrawingGLContext :: "RotoDrawableItemPtr \<Rightarrow> OSGLContextPtr option \<times> OSGLContextPtr option"
  getOrCreateOpenGLContext :: "bool \<Rightarrow> OSGLContextPtr option"
  getOrCreateCPUOpenGLContext :: "bool \<Rightarrow> OSGLContextPtr option"
  launchNodeRender :: "FrameViewRequestPtr \<Rightarrow> ActionRetCodeEnum"
  createRenderClone :: "EffectInstancePtr \<Rightarrow> rat \<Rightarrow> nat \<Rightarrow> EffectInstancePtr"
  getRegionOfDefinition_public ::
    "EffectInstancePtr \<Rightarrow> rat \<Rightarrow> rat \<times> rat \<Rightarrow> nat \<Rightarrow> ActionRetCodeEnum \<times> RectD"
  getLayersProducedAndNeeded_public ::
    "EffectInstancePtr \<Rightarrow> rat \<Rightarrow> nat \<Rightarrow> ActionRetCodeEnum \<times> ImagePlaneDesc list"
  getCombinedScale :: "nat \<Rightarrow> rat \<times> rat \<Rightarrow> rat \<times> rat"
  getNumComponents :: "ImagePlaneDesc \<Rightarrow> nat"
  isNull :: "RectD \<Rightarrow> bool"

section \<open>TreeRender\<close>

text \<open>The constructor \<open>TreeRenderPrivate(TreeRender*)\<close>.\<close>

definition TreeRenderPrivate_ctor :: TreeRenderPrivate where
  "TreeRenderPrivate_ctor =
     \<lparr> ctorArgs = None,
       state = eActionStatusOK,
       renderClones = [],
       outputRequest = None,
       extraRequestedResults = Map.empty,
       activeStrokeUpdateArea = RectI 0 0 0 0,
       activeStrokeUpdateAreaSet = False,
       openGLContext = None,
       cpuOpenGLContext = None,
       aborted = 0,
       handleNaNs = True,
       useConcatenations = True \<rparr>"

definition getExtraRequestedResultsForNode ::
    "TreeRenderPrivate \<Rightarrow> NodePtr \<Rightarrow> FrameViewRequestPtr option" where
  "getExtraRequestedResultsForNode r node =
     (case extraRequestedResults r node of None \<Rightarrow> None | Some found \<Rightarrow> found)"

definition isExtraResultsRequestedForNode :: "TreeRenderPrivate \<Rightarrow> NodePtr \<Rightarrow> bool" where
  "isExtraResultsRequestedForNode r node =
     (case extraRequestedResults r node of None \<Rightarrow> False | Some found \<Rightarrow> True)"

text \<open>
  \<open>getRotoPaintActiveStrokeUpdateArea(RectI* updateArea)\<close>: the second argument is the
  rectangle \<open>*updateArea\<close> before the call, the second component of the result is
  \<open>*updateArea\<close> after it.
\<close>

definition getRotoPaintActiveStrokeUpdateArea ::
    "TreeRenderPrivate \<Rightarrow> RectI \<Rightarrow> bool \<times> RectI" where
  "getRotoPaintActiveStrokeUpdateArea r updateArea =
     (if \<not> activeStrokeUpdateAreaSet r then (False, updateArea)
      else (True, activeStrokeUpdateArea r))"

definition setActiveStrokeUpdateArea :: "RectI \<Rightarrow> TreeRenderPrivate \<Rightarrow> TreeRenderPrivate" where
  "setActiveStrokeUpdateArea area r =
     r\<lparr>activeStrokeUpdateArea := area, activeStrokeUpdateAreaSet := True\<rparr>"

text \<open>\<open>(int)_imp->aborted > 0\<close>: the counter read as a signed 32-bit integer.\<close>

definition isRenderAborted :: "TreeRenderPrivate \<Rightarrow> bool" where
  "isRenderAborted r = (if 0 < sint (aborted r) then True else False)"

text \<open>\<open>fetchAndAddAcquire(1)\<close>: an atomic addition, which wraps around.\<close>

definition setRenderAborted :: "TreeRenderPrivate \<Rightarrow> TreeRenderPrivate" where
  "setRenderAborted r = r\<lparr>aborted := aborted r + 1\<rparr>"

definition registerRenderClone :: "KnobHolderPtr \<Rightarrow> TreeRenderPrivate \<Rightarrow> TreeRenderPrivate" where
  "registerRenderClone holder r = r\<lparr>renderClones := renderClones r @ [holder]\<rparr>"

text \<open>
  \<open>cleanupRenderClones\<close> asks the main instance of every registered clone to drop it
  (an effect on objects defined elsewhere) and clears the list.
\<close>

definition cleanupRenderClones :: "TreeRenderPrivate \<Rightarrow> TreeRenderPrivate" where
  "cleanupRenderClones r = r\<lparr>renderClones := []\<rparr>"

text \<open>
  \<open>fetchOpenGLContext\<close>. A context pool call that throws \<open>std::exception\<close> is \<open>None\<close>;
  the exception is caught and the contexts fetched so far are kept. The memo of the
  stroke item is an object defined elsewhere and is not part of the model.
\<close>

definition fetchOpenGLContext :: "Env \<Rightarrow> CtorArgs \<Rightarrow> TreeRenderPrivate \<Rightarrow> TreeRenderPrivate" where
  "fetchOpenGLContext env inArgs r =
     (let (glContext, cpuContext) =
        (case activeRotoDrawableItem inArgs of
           Some item \<Rightarrow>
             (if isStroke env item then
                (let (gl, cpu) = getDrawingGLContext env item in
                 if gl = None \<and> cpu = None then
                   (case getOrCreateOpenGLContext env True of
                      None \<Rightarrow> (None, None)
                    | Some g \<Rightarrow> (Some g, getOrCreateCPUOpenGLContext env True))
                 else (gl, cpu))
              else (None, None))
         | None \<Rightarrow>
             (case getOrCreateOpenGLContext env False of
                None \<Rightarrow> (None, None)
              | Some g \<Rightarrow> (Some g, getOrCreateCPUOpenGLContext env False)))
      in r\<lparr>openGLContext := glContext, cpuOpenGLContext := cpuContext\<rparr>)"

text \<open>
  \<open>std::map::insert\<close> of a pair whose key is already present leaves the map unchanged.
\<close>

definition map_insert :: "('k \<rightharpoonup> 'v) \<Rightarrow> 'k \<Rightarrow> 'v \<Rightarrow> ('k \<rightharpoonup> 'v)" where
  "map_insert m k v = (case m k of None \<Rightarrow> m(k \<mapsto> v) | Some _ \<Rightarrow> m)"

fun insertExtraNodes ::
    "NodePtr list \<Rightarrow> (NodePtr \<rightharpoonup> FrameViewRequestPtr option) \<Rightarrow> (NodePtr \<rightharpoonup> FrameViewRequestPtr option)" where
  "insertExtraNodes [] m = m"
| "insertExtraNodes (n # ns) m = insertExtraNodes ns (map_insert m n None)"

text \<open>
  \<open>TreeRenderPrivate::init\<close> can be left by an exception (\<open>create\<close> catches everything).
  Where it is thrown is a parameter: while fetching the settings, after some of the
  extra nodes have been inserted, or while fetching the contexts. What \<open>init\<close> wrote
  before the exception stays written. The result is the render and whether an
  exception left \<open>init\<close>.
\<close>

datatype InitThrow =
  NoThrow
| ThrowInGetCurrentSettings
| ThrowInExtraNodes nat
| ThrowInFetchOpenGLContext

definition init :: "Env \<Rightarrow> InitThrow \<Rightarrow> CtorArgs \<Rightarrow> TreeRenderPrivate \<Rightarrow> TreeRenderPrivate \<times> bool" where
  "init env thr inArgs r0 =
     (let r1 = r0\<lparr>ctorArgs := Some inArgs\<rparr> in
      if thr = ThrowInGetCurrentSettings then (r1, True)
      else
        (let r2 = r1\<lparr>handleNaNs := (case settings env of None \<Rightarrow> False | Some s \<Rightarrow> fst s),
                     useConcatenations := (case settings env of None \<Rightarrow> False | Some s \<Rightarrow> snd s)\<rparr>
         in case thr of
              ThrowInExtraNodes k \<Rightarrow>
                (r2\<lparr>extraRequestedResults :=
                      insertExtraNodes (take k (extraNodesToSample inArgs)) (extraRequestedResults r2)\<rparr>,
                 True)
            | _ \<Rightarrow>
                (let r3 = r2\<lparr>extraRequestedResults :=
                      insertExtraNodes (extraNodesToSample inArgs) (extraRequestedResults r2)\<rparr>
                 in if thr = ThrowInFetchOpenGLContext then (r3, True)
                    else (fetchOpenGLContext env inArgs r3, False))))"

text \<open>
  \<open>TreeRender::setResults\<close>. The root node is read through \<open>ctorArgs\<close>, which is null
  on a render whose \<open>create\<close> returned before \<open>init\<close>.
\<close>

definition setResults ::
    "Env \<Rightarrow> FrameViewRequestPtr option \<Rightarrow> ActionRetCodeEnum \<Rightarrow> TreeRenderPrivate
      \<Rightarrow> Fault + TreeRenderPrivate" where
  "setResults env request status r0 =
     (let r = (if isFailureRetCode status then r0\<lparr>state := status\<rparr> else r0) in
      case request of
        None \<Rightarrow> Inr r
      | Some req \<Rightarrow>
          (case ctorArgs r of
             None \<Rightarrow> Inl NullPointerDereference
           | Some args \<Rightarrow>
               (let node = getNode env (getEffect env req) in
                if node = getNode env (treeRootEffect args) then Inr (r\<lparr>outputRequest := Some req\<rparr>)
                else
                  (case extraRequestedResults r node of
                     Some None \<Rightarrow> Inr (r\<lparr>extraRequestedResults := (extraRequestedResults r)(node \<mapsto> Some req)\<rparr>)
                   | _ \<Rightarrow> Inr r))))"

text \<open>
  \<open>TreeRender::create\<close>. The root rewritten for a group input is written into the
  caller's arguments, which \<open>init\<close> then stores.
\<close>

definition create :: "Env \<Rightarrow> InitThrow \<Rightarrow> CtorArgs \<Rightarrow> TreeRenderPrivate" where
  "create env thr inArgs =
     (let render = TreeRenderPrivate_ctor in
      if isGroupInput env (treeRootEffect inArgs) then
        (case getGroup env (getNode env (treeRootEffect inArgs)) of
           None \<Rightarrow> render\<lparr>state := eActionStatusFailed\<rparr>
         | Some enclosingNodeGroup \<Rightarrow>
             (case getRealInputForInput env enclosingNodeGroup (getNode env (treeRootEffect inArgs)) of
                None \<Rightarrow> render\<lparr>state := eActionStatusFailed\<rparr>
              | Some realInput \<Rightarrow>
                  (let (r, thrown) = init env thr (inArgs\<lparr>treeRootEffect := getEffectInstance env realInput\<rparr>) render
                   in if thrown then r\<lparr>state := eActionStatusFailed\<rparr> else r)))
      else
        (let (r, thrown) = init env thr inArgs render
         in if thrown then r\<lparr>state := eActionStatusFailed\<rparr> else r))"

section \<open>TreeRenderExecutionData\<close>

text \<open>
  Modelled from the spec: the class \<open>FrameViewRequest\<close> is defined outside the files at
  hand. This is the data of one request within one execution, as the spec's data model
  gives it: its status, its listeners ("reverse edges: FVRs that depend on this one"),
  \<open>remainingDepCount\<close> ("integer, decrements as dependencies finish") and the cached
  input results ("released on completion").
\<close>

record FrameViewRequest =
  fvrStatus :: FrameViewRequestStatusEnum
  remainingDepCount :: int
  listeners :: "FrameViewRequestPtr list"
  cachedInputResults :: "FrameViewRequestPtr list"

text \<open>
  \<open>struct TreeRenderExecutionDataPrivate\<close>. The two \<open>std::set\<close>s are ordered by
  pointer and are modelled as lists; \<open>dependencyFreeRenders\<close> is a \<open>scoped_ptr\<close>,
  null until \<open>createExecutionDataInternal\<close> resets it. A runnable is identified by the
  request it holds.
\<close>

record TreeRenderExecutionDataPrivate =
  isMainExecutionOfTree :: bool
  dependencyFreeRenders :: "FrameViewRequestPtr list option"
  allRenderTasksToProcess :: "FrameViewRequestPtr list"
  status :: ActionRetCodeEnum
  execCanonicalRoI :: RectD
  execPlane :: ImagePlaneDesc
  execOutputRequest :: "FrameViewRequestPtr option"
  launchedRunnables :: "FrameViewRequestPtr list"

text \<open>
  One execution together with what its functions read and write: the tree render that
  produced it, the requests, the runnables handed to \<open>QThreadPool::start\<close> that the
  pool has not run yet (oldest first) and the number of calls of
  \<open>notifyTaskInRenderFinished\<close>.
\<close>

record World =
  exec :: TreeRenderExecutionDataPrivate
  render :: TreeRenderPrivate
  requests :: "FrameViewRequestPtr \<Rightarrow> FrameViewRequest"
  threadPool :: "FrameViewRequestPtr list"
  notified :: nat

definition TreeRenderExecutionDataPrivate_ctor :: TreeRenderExecutionDataPrivate where
  "TreeRenderExecutionDataPrivate_ctor =
     \<lparr> isMainExecutionOfTree = False,
       dependencyFreeRenders = None,
       allRenderTasksToProcess = [],
       status = eActionStatusOK,
       execCanonicalRoI = RectD 0 0 0 0,
       execPlane = ImagePlaneDesc [] 0,
       execOutputRequest = None,
       launchedRunnables = [] \<rparr>"

text \<open>\<open>std::set::insert\<close> and \<open>std::set::erase\<close> on the list of a set.\<close>

definition stdset_insert :: "nat \<Rightarrow> nat list \<Rightarrow> nat list" where
  "stdset_insert x xs = (if x \<in> set xs then xs else insort x xs)"

definition stdset_erase :: "nat \<Rightarrow> nat list \<Rightarrow> nat list" where
  "stdset_erase x xs = removeAll x xs"

text \<open>
  Modelled from the spec: the member functions of \<open>FrameViewRequest\<close> that the execution
  calls. \<open>getNumDependencies(execution) \<rightarrow> int\<close>;
  \<open>markDependencyAsRendered(execution, other) \<rightarrow> int\<close>: "decrement remaining count,
  return new value"; \<open>getListeners(execution)\<close>: "stable snapshot of dependents";
  \<open>clearRenderedDependencies(execution)\<close>: "drop retained upstream images".
\<close>

definition getNumDependencies :: "World \<Rightarrow> FrameViewRequestPtr \<Rightarrow> int" where
  "getNumDependencies w r = remainingDepCount (requests w r)"

definition markDependencyAsRendered ::
    "FrameViewRequestPtr \<Rightarrow> FrameViewRequestPtr \<Rightarrow> World \<Rightarrow> int \<times> World" where
  "markDependencyAsRendered r deps w =
     (let n = remainingDepCount (requests w r) - 1 in
      (n, w\<lparr>requests := (requests w)(r := (requests w r)\<lparr>remainingDepCount := n\<rparr>)\<rparr>))"

definition getListeners :: "World \<Rightarrow> FrameViewRequestPtr \<Rightarrow> FrameViewRequestPtr list" where
  "getListeners w r = listeners (requests w r)"

definition clearRenderedDependencies :: "FrameViewRequestPtr \<Rightarrow> World \<Rightarrow> World" where
  "clearRenderedDependencies r w =
     w\<lparr>requests := (requests w)(r := (requests w r)\<lparr>cachedInputResults := []\<rparr>)\<rparr>"

definition getStatus :: "World \<Rightarrow> ActionRetCodeEnum" where
  "getStatus w = status (exec w)"

definition hasTasksToExecute :: "World \<Rightarrow> bool" where
  "hasTasksToExecute w = (length (allRenderTasksToProcess (exec w)) > 0)"

definition addTaskToRender :: "FrameViewRequestPtr \<Rightarrow> World \<Rightarrow> Fault + World" where
  "addTaskToRender r w =
     (let w1 = w\<lparr>exec := (exec w)\<lparr>allRenderTasksToProcess :=
                 stdset_insert r (allRenderTasksToProcess (exec w))\<rparr>\<rparr> in
      if getNumDependencies w1 r = 0 then
        (case dependencyFreeRenders (exec w1) of
           None \<Rightarrow> Inl NullPointerDereference
         | Some ready \<Rightarrow>
             Inr (w1\<lparr>exec := (exec w1)\<lparr>dependencyFreeRenders := Some (stdset_insert r ready)\<rparr>\<rparr>))
      else Inr w1)"

definition removeTaskFromGlobalTaskList :: "FrameViewRequestPtr \<Rightarrow> World \<Rightarrow> World" where
  "removeTaskFromGlobalTaskList request w =
     (if request \<in> set (allRenderTasksToProcess (exec w))
      then w\<lparr>exec := (exec w)\<lparr>allRenderTasksToProcess :=
                 stdset_erase request (allRenderTasksToProcess (exec w))\<rparr>\<rparr>
      else w)"

text \<open>
  The loop of \<open>removeDependencyLinkFromRequest\<close> over the snapshot of the listeners.
  The assertion that a listener that becomes ready is still among the tasks to process
  is compiled out of a release build and is not a branch here.
\<close>

fun removeDependencyLinkFromRequest_loop ::
    "FrameViewRequestPtr \<Rightarrow> FrameViewRequestPtr list \<Rightarrow> World \<Rightarrow> Fault + World" where
  "removeDependencyLinkFromRequest_loop request [] w = Inr w"
| "removeDependencyLinkFromRequest_loop request (l # ls) w =
     (let (numDepsLeft, w1) = markDependencyAsRendered l request w in
      if numDepsLeft = 0 then
        (case dependencyFreeRenders (exec w1) of
           None \<Rightarrow> Inl NullPointerDereference
         | Some ready \<Rightarrow>
             (if l \<notin> set ready
              then removeDependencyLinkFromRequest_loop request ls
                     (w1\<lparr>exec := (exec w1)\<lparr>dependencyFreeRenders := Some (stdset_insert l ready)\<rparr>\<rparr>)
              else removeDependencyLinkFromRequest_loop request ls w1))
      else removeDependencyLinkFromRequest_loop request ls w1)"

definition removeDependencyLinkFromRequest :: "FrameViewRequestPtr \<Rightarrow> World \<Rightarrow> Fault + World" where
  "removeDependencyLinkFromRequest request w =
     (if isFailureRetCode (status (exec w)) then Inr w
      else removeDependencyLinkFromRequest_loop request (getListeners w request) w)"

text \<open>
  \<open>TreeRenderExecutionDataPrivate::onTaskFinished\<close>. \<open>setResults\<close> receives the status
  of the execution, not the status of the request.
\<close>

definition onTaskFinished ::
    "Env \<Rightarrow> FrameViewRequestPtr \<Rightarrow> ActionRetCodeEnum \<Rightarrow> World \<Rightarrow> Fault + World" where
  "onTaskFinished env request requestStatus w =
     (let w1 = clearRenderedDependencies request w;
          w2 = (if isFailureRetCode requestStatus
                then w1\<lparr>exec := (exec w1)\<lparr>status := requestStatus\<rparr>\<rparr> else w1);
          w3 = removeTaskFromGlobalTaskList request w2
      in case removeDependencyLinkFromRequest request w3 of
           Inl f \<Rightarrow> Inl f
         | Inr w4 \<Rightarrow>
             (case setResults env (Some request) (status (exec w4)) (render w4) of
                Inl f \<Rightarrow> Inl f
              | Inr r \<Rightarrow> Inr (w4\<lparr>render := r, notified := Suc (notified w4)\<rparr>)))"

text \<open>\<open>FrameViewRenderRunnable::run\<close> for the runnable that holds \<open>request\<close>.\<close>

definition run :: "Env \<Rightarrow> FrameViewRequestPtr \<Rightarrow> World \<Rightarrow> Fault + World" where
  "run env request w =
     (let stat = getStatus w;
          stat' = (if \<not> isFailureRetCode stat then launchNodeRender env request else stat)
      in onTaskFinished env request stat' w)"

text \<open>
  The loop of \<open>executeAvailableTasks\<close>. \<open>disableMT\<close> tells whether
  \<open>TREE_RENDER_DISABLE_MT\<close> is defined (the file at hand leaves it undefined). The
  first request of the ordered set is popped; it is either handed to the thread pool
  or run at once. The loop ends only when its condition fails, so the function is
  partial: \<open>None\<close> is a loop that never ends.
\<close>

partial_function (option) executeAvailableTasks_loop ::
    "Env \<Rightarrow> bool \<Rightarrow> int \<Rightarrow> int \<Rightarrow> World \<Rightarrow> (Fault + int \<times> World) option" where
  "executeAvailableTasks_loop env disableMT nTasksRemaining nTasksStarted w =
     (case dependencyFreeRenders (exec w) of
        None \<Rightarrow> Some (Inl NullPointerDereference)
      | Some ready \<Rightarrow>
          (if (nTasksRemaining = - 1 \<or> nTasksRemaining > 0) \<and> length ready > 0 then
             (let request = hd ready;
                  w1 = w\<lparr>exec := (exec w)\<lparr>dependencyFreeRenders := Some (tl ready)\<rparr>\<rparr>
              in if disableMT then
                   (case run env request w1 of
                      Inl f \<Rightarrow> Some (Inl f)
                    | Inr w2 \<Rightarrow> executeAvailableTasks_loop env disableMT nTasksRemaining nTasksStarted w2)
                 else if fvrStatus (requests w1 request) = eFrameViewRequestStatusNotRendered
                           \<and> \<not> isFailureRetCode (status (exec w1)) then
                   executeAvailableTasks_loop env disableMT (nTasksRemaining - 1) (nTasksStarted + 1)
                     (w1\<lparr>exec := (exec w1)\<lparr>launchedRunnables := launchedRunnables (exec w1) @ [request]\<rparr>,
                         threadPool := threadPool w1 @ [request]\<rparr>)
                 else
                   (case run env request w1 of
                      Inl f \<Rightarrow> Some (Inl f)
                    | Inr w2 \<Rightarrow> executeAvailableTasks_loop env disableMT nTasksRemaining nTasksStarted w2))
           else Some (Inr (nTasksStarted, w))))"

definition executeAvailableTasks ::
    "Env \<Rightarrow> bool \<Rightarrow> int \<Rightarrow> World \<Rightarrow> (Fault + int \<times> World) option" where
  "executeAvailableTasks env disableMT nTasks w =
     (case dependencyFreeRenders (exec w) of
        None \<Rightarrow> Some (Inr (0, w))
      | Some ready \<Rightarrow> executeAvailableTasks_loop env disableMT nTasks 0 w)"

section \<open>Creating an execution\<close>

text \<open>
  The planning pass \<open>EffectInstance::requestRender\<close> is defined outside the files at
  hand and is a parameter: given the tree root, the time, the view, the proxy scale, the
  mipmap level, the plane and the region of interest, it returns a status and changes
  the execution (through \<open>addTaskToRender\<close>), its output request and the requests.
\<close>

type_synonym Planner =
  "EffectInstancePtr \<Rightarrow> rat \<Rightarrow> nat \<Rightarrow> rat \<times> rat \<Rightarrow> nat \<Rightarrow> ImagePlaneDesc \<Rightarrow> RectD
     \<Rightarrow> World \<Rightarrow> ActionRetCodeEnum \<times> World"

text \<open>
  \<open>getTreeRootRoD\<close> and \<open>getTreeRootPlane\<close>: the last argument is the value of the
  output parameter before the call, the second component of the result its value after
  the call.
\<close>

definition getTreeRootRoD ::
    "Env \<Rightarrow> EffectInstancePtr \<Rightarrow> rat \<Rightarrow> nat \<Rightarrow> rat \<times> rat \<Rightarrow> RectD \<Rightarrow> ActionRetCodeEnum \<times> RectD" where
  "getTreeRootRoD env effect t v scale rod =
     (let (stat, results) = getRegionOfDefinition_public env effect t scale v in
      if isFailureRetCode stat then (stat, rod) else (stat, results))"

definition getTreeRootPlane ::
    "Env \<Rightarrow> EffectInstancePtr \<Rightarrow> rat \<Rightarrow> nat \<Rightarrow> ImagePlaneDesc \<Rightarrow> ActionRetCodeEnum \<times> ImagePlaneDesc" where
  "getTreeRootPlane env effect t v pl =
     (let (stat, producedLayers) = getLayersProducedAndNeeded_public env effect t v in
      if isFailureRetCode stat then (stat, pl)
      else (case producedLayers of [] \<Rightarrow> (stat, pl) | front # _ \<Rightarrow> (stat, front)))"

text \<open>
  The end of \<open>createExecutionDataInternal\<close>, from the reset of
  \<open>dependencyFreeRenders\<close> on: the planning pass and the check of its outcome. The
  assertion that the set is not empty is compiled out of a release build, which is the
  build in which the test that follows it can succeed.
\<close>

definition createExecutionDataInternal_plan ::
    "Planner \<Rightarrow> EffectInstancePtr \<Rightarrow> rat \<Rightarrow> nat \<Rightarrow> rat \<times> rat \<Rightarrow> nat \<Rightarrow> World \<Rightarrow> Fault + World" where
  "createExecutionDataInternal_plan requestRender treeRoot t v scale mip w =
     (let w1 = w\<lparr>exec := (exec w)\<lparr>dependencyFreeRenders := Some []\<rparr>\<rparr>;
          (stat, w2) = requestRender treeRoot t v scale mip (execPlane (exec w1)) (execCanonicalRoI (exec w1)) w1;
          w3 = w2\<lparr>exec := (exec w2)\<lparr>status := stat\<rparr>\<rparr>
      in if isFailureRetCode (status (exec w3)) then Inr w3
         else (case dependencyFreeRenders (exec w3) of
                 None \<Rightarrow> Inl NullPointerDereference
               | Some ready \<Rightarrow>
                   (if ready = [] then Inr (w3\<lparr>exec := (exec w3)\<lparr>status := eActionStatusFailed\<rparr>\<rparr>)
                    else Inr w3)))"

text \<open>
  \<open>TreeRenderPrivate::createExecutionDataInternal\<close>. The new execution data replaces
  the \<open>exec\<close> field of the world; the tree render and the requests are those of the
  world.
\<close>

definition createExecutionDataInternal ::
    "Env \<Rightarrow> Planner \<Rightarrow> bool \<Rightarrow> EffectInstancePtr \<Rightarrow> rat \<Rightarrow> nat \<Rightarrow> rat \<times> rat \<Rightarrow> nat
      \<Rightarrow> ImagePlaneDesc option \<Rightarrow> RectD option \<Rightarrow> World \<Rightarrow> Fault + World" where
  "createExecutionDataInternal env requestRender isMainExecution treeRoot t v scale mip planeParam canonicalRoIParam w0 =
     (let w = w0\<lparr>exec := TreeRenderExecutionDataPrivate_ctor\<lparr>isMainExecutionOfTree := isMainExecution\<rparr>\<rparr> in
      if isFailureRetCode (state (render w)) then Inr w
      else
        (let rootRenderClone = createRenderClone env treeRoot t v;
             w1 = (case planeParam of
                     Some p \<Rightarrow> w\<lparr>exec := (exec w)\<lparr>execPlane := p\<rparr>\<rparr>
                   | None \<Rightarrow>
                       (let (stat, pl) = getTreeRootPlane env rootRenderClone t v (execPlane (exec w))
                        in w\<lparr>exec := (exec w)\<lparr>status := stat, execPlane := pl\<rparr>\<rparr>))
         in if planeParam = None \<and> isFailureRetCode (status (exec w1)) then Inr w1
            else
              (let w2 = (case canonicalRoIParam of
                           Some roi \<Rightarrow> w1\<lparr>exec := (exec w1)\<lparr>execCanonicalRoI := roi\<rparr>\<rparr>
                         | None \<Rightarrow>
                             (let (stat, rod) = getTreeRootRoD env rootRenderClone t v
                                                  (getCombinedScale env mip scale) (execCanonicalRoI (exec w1))
                              in w1\<lparr>exec := (exec w1)\<lparr>status := stat, execCanonicalRoI := rod\<rparr>\<rparr>))
               in if canonicalRoIParam = None \<and> isFailureRetCode (status (exec w2)) then Inr w2
                  else createExecutionDataInternal_plan requestRender treeRoot t v scale mip w2)))"


text \<open>
  \<open>TreeRender::createMainExecutionData\<close> reads every argument through \<open>ctorArgs\<close>,
  which is null on a render whose \<open>create\<close> returned before \<open>init\<close>.
\<close>

definition createMainExecutionData :: "Env \<Rightarrow> Planner \<Rightarrow> World \<Rightarrow> Fault + World" where
  "createMainExecutionData env requestRender w =
     (case ctorArgs (render w) of
        None \<Rightarrow> Inl NullPointerDereference
      | Some args \<Rightarrow>
          createExecutionDataInternal env requestRender True (treeRootEffect args) (time args) (view args)
            (proxyScale args) (mipMapLevel args)
            (if getNumComponents env (plane args) = 0 then None else Some (plane args))
            (if isNull env (canonicalRoI args) then None else Some (canonicalRoI args)) w)"

section \<open>Sequences of calls\<close>

text \<open>The member functions of \<open>TreeRender\<close> that write to the render, as calls.\<close>

datatype TreeRenderCall =
  CallSetActiveStrokeUpdateArea RectI
| CallSetRenderAborted
| CallRegisterRenderClone KnobHolderPtr
| CallCleanupRenderClones
| CallSetResults "FrameViewRequestPtr option" ActionRetCodeEnum

fun callTreeRender :: "Env \<Rightarrow> TreeRenderCall \<Rightarrow> TreeRenderPrivate \<Rightarrow> Fault + TreeRenderPrivate" where
  "callTreeRender env (CallSetActiveStrokeUpdateArea area) r = Inr (setActiveStrokeUpdateArea area r)"
| "callTreeRender env CallSetRenderAborted r = Inr (setRenderAborted r)"
| "callTreeRender env (CallRegisterRenderClone holder) r = Inr (registerRenderClone holder r)"
| "callTreeRender env CallCleanupRenderClones r = Inr (cleanupRenderClones r)"
| "callTreeRender env (CallSetResults request st) r = setResults env request st r"

fun callsTreeRender :: "Env \<Rightarrow> TreeRenderCall list \<Rightarrow> TreeRenderPrivate \<Rightarrow> Fault + TreeRenderPrivate" where
  "callsTreeRender env [] r = Inr r"
| "callsTreeRender env (c # cs) r =
     (case callTreeRender env c r of Inl f \<Rightarrow> Inl f | Inr r' \<Rightarrow> callsTreeRender env cs r')"

text \<open>The areas passed to \<open>setActiveStrokeUpdateArea\<close>, in the order of the calls.\<close>

fun strokeAreasSet :: "TreeRenderCall list \<Rightarrow> RectI list" where
  "strokeAreasSet [] = []"
| "strokeAreasSet (CallSetActiveStrokeUpdateArea area # cs) = area # strokeAreasSet cs"
| "strokeAreasSet (_ # cs) = strokeAreasSet cs"

text \<open>The number of calls of \<open>setRenderAborted\<close>.\<close>

fun abortCalls :: "TreeRenderCall list \<Rightarrow> nat" where
  "abortCalls [] = 0"
| "abortCalls (CallSetRenderAborted # cs) = Suc (abortCalls cs)"
| "abortCalls (_ # cs) = abortCalls cs"

text \<open>A sequence of task completions: \<open>onTaskFinished\<close> for each request with its status.\<close>

fun onTasksFinished ::
    "Env \<Rightarrow> (FrameViewRequestPtr \<times> ActionRetCodeEnum) list \<Rightarrow> World \<Rightarrow> Fault + World" where
  "onTasksFinished env [] w = Inr w"
| "onTasksFinished env ((request, requestStatus) # cs) w =
     (case onTaskFinished env request requestStatus w of
        Inl f \<Rightarrow> Inl f
      | Inr w' \<Rightarrow> onTasksFinished env cs w')"

text \<open>
  Runnables that are run at once, one after the other: \<open>FrameViewRenderRunnable::run\<close>
  for each request.
\<close>

fun runs :: "Env \<Rightarrow> FrameViewRequestPtr list \<Rightarrow> World \<Rightarrow> Fault + World" where
  "runs env [] w = Inr w"
| "runs env (request # rs) w =
     (case run env request w of Inl f \<Rightarrow> Inl f | Inr w' \<Rightarrow> runs env rs w')"


section \<open>Example scenes\<close>

text \<open>
  A small project: the node of an effect is its number modulo 100, the render clone of
  effect \<open>e\<close> is \<open>e + 100\<close>, and request \<open>p\<close> renders the clone of effect \<open>p mod 100\<close>.
  Effects 10, 11 and 12 are group inputs: node 10 lies in group 20, which maps it to
  the real input 30; node 11 lies in no group; node 12 lies in group 21, which has no
  real input for it.
\<close>

definition env0 :: Env where
  "env0 =
     \<lparr> isGroupInput = (\<lambda>e. e = 10 \<or> e = 11 \<or> e = 12),
       getNode = (\<lambda>e. e mod 100),
       getGroup = (\<lambda>n. if n = 10 then Some 20 else if n = 12 then Some 21 else None),
       getRealInputForInput = (\<lambda>g n. if g = 20 \<and> n = 10 then Some 30 else None),
       getEffectInstance = (\<lambda>n. n),
       getEffect = (\<lambda>p. 100 + p mod 100),
       settings = Some (True, True),
       isStroke = (\<lambda>i. True),
       getDrawingGLContext = (\<lambda>i. (None, None)),
       getOrCreateOpenGLContext = (\<lambda>b. Some 1),
       getOrCreateCPUOpenGLContext = (\<lambda>b. Some 2),
       launchNodeRender = (\<lambda>p. eActionStatusOK),
       createRenderClone = (\<lambda>e t v. e + 100),
       getRegionOfDefinition_public = (\<lambda>e t s v. (eActionStatusOK, RectD 0 0 1 1)),
       getLayersProducedAndNeeded_public = (\<lambda>e t v. (eActionStatusOK, [ImagePlaneDesc ''RGBA'' 4])),
       getCombinedScale = (\<lambda>m s. s),
       getNumComponents = (\<lambda>p. case p of ImagePlaneDesc l n \<Rightarrow> n),
       isNull = (\<lambda>r. case r of RectD x1 y1 x2 y2 \<Rightarrow> x2 \<le> x1 \<or> y2 \<le> y1) \<rparr>"

text \<open>Render effect 4, and sample node 2 as an extra result.\<close>

definition args0 :: CtorArgs where
  "args0 =
     \<lparr> time = 1, view = 0, treeRootEffect = 4, extraNodesToSample = [2],
       activeRotoDrawableItem = None, canonicalRoI = RectD 0 0 1 1,
       plane = ImagePlaneDesc ''RGBA'' 4, proxyScale = (1, 1), mipMapLevel = 0,
       draftMode = False, playback = False, byPassCache = False,
       preventConcurrentTreeRenders = False \<rparr>"

definition fvr0 :: "int \<Rightarrow> FrameViewRequestPtr list \<Rightarrow> FrameViewRequest" where
  "fvr0 n ls =
     \<lparr> fvrStatus = eFrameViewRequestStatusNotRendered, remainingDepCount = n,
       listeners = ls, cachedInputResults = [] \<rparr>"

text \<open>
  The diamond of the spec: request 4 depends on 2 and 3, which both depend on 1.
\<close>

definition diamondRequests :: "FrameViewRequestPtr \<Rightarrow> FrameViewRequest" where
  "diamondRequests p =
     (if p = 1 then fvr0 0 [2, 3]
      else if p = 2 then fvr0 1 [4]
      else if p = 3 then fvr0 1 [4]
      else if p = 4 then fvr0 2 []
      else fvr0 0 [])"

definition diamond :: World where
  "diamond =
     \<lparr> exec = TreeRenderExecutionDataPrivate_ctor
                \<lparr>isMainExecutionOfTree := True, dependencyFreeRenders := Some [1],
                 allRenderTasksToProcess := [1, 2, 3, 4]\<rparr>,
       render = create env0 NoThrow args0,
       requests = diamondRequests,
       threadPool = [],
       notified = 0 \<rparr>"

text \<open>
  A fork: the requests 1 and 2 have no dependency and are ready, and the root 4 waits
  for both.
\<close>

definition forkRequests :: "FrameViewRequestPtr \<Rightarrow> FrameViewRequest" where
  "forkRequests p =
     (if p = 1 \<or> p = 2 then fvr0 0 [4]
      else if p = 4 then fvr0 2 []
      else fvr0 0 [])"

definition twoReady :: World where
  "twoReady =
     \<lparr> exec = TreeRenderExecutionDataPrivate_ctor
                \<lparr>isMainExecutionOfTree := True, dependencyFreeRenders := Some [1, 2],
                 allRenderTasksToProcess := [1, 2, 4]\<rparr>,
       render = create env0 NoThrow args0,
       requests = forkRequests,
       threadPool = [],
       notified = 0 \<rparr>"

text \<open>
  A world before any execution has been created, and two planning passes for it: one
  that adds no task at all, and one that adds request 4 of the diamond, which still
  waits for two dependencies.
\<close>

definition fresh :: World where
  "fresh =
     \<lparr> exec = TreeRenderExecutionDataPrivate_ctor,
       render = create env0 NoThrow args0,
       requests = diamondRequests,
       threadPool = [],
       notified = 0 \<rparr>"

definition planNothing :: Planner where
  "planNothing treeRoot t v scale mip pl roi w = (eActionStatusOK, w)"

definition planWaiting :: Planner where
  "planWaiting treeRoot t v scale mip pl roi w =
     (case addTaskToRender 4 w of
        Inl f \<Rightarrow> (eActionStatusFailed, w)
      | Inr w' \<Rightarrow> (eActionStatusOK, w'))"

text \<open>
  A planning pass that requests the tree root and one input of it: request 1 renders
  the input and has no dependency, and the request of the root, whose pointer is the
  number of the root effect, waits for request 1 and is the output request. With it,
  the world before any execution whose render is the one that \<open>create\<close> returns for
  the group input 10.
\<close>

definition planRootAndInput :: Planner where
  "planRootAndInput treeRoot t v scale mip pl roi w =
     (let w0 = w\<lparr>requests := (\<lambda>p. if p = 1 then fvr0 0 [treeRoot]
                                  else if p = treeRoot then fvr0 1 [] else fvr0 0 [])\<rparr>
      in case addTaskToRender treeRoot w0 of
           Inl f \<Rightarrow> (eActionStatusFailed, w0)
         | Inr w1 \<Rightarrow>
             (case addTaskToRender 1 w1 of
                Inl f \<Rightarrow> (eActionStatusFailed, w1)
              | Inr w2 \<Rightarrow> (eActionStatusOK, w2\<lparr>exec := (exec w2)\<lparr>execOutputRequest := Some treeRoot\<rparr>\<rparr>)))"

definition groupInputWorld :: World where
  "groupInputWorld = fresh\<lparr>render := create env0 NoThrow (args0\<lparr>treeRootEffect := 10\<rparr>)\<rparr>"

text \<open>
  The thread pool runs the \<open>i\<close>-th of the runnables it was handed and has not run yet.
\<close>

definition poolRun :: "Env \<Rightarrow> nat \<Rightarrow> World \<Rightarrow> Fault + World" where
  "poolRun env i w =
     (if i < length (threadPool w)
      then run env (threadPool w ! i) (w\<lparr>threadPool := take i (threadPool w) @ drop (Suc i) (threadPool w)\<rparr>)
      else Inr w)"

text \<open>The project \<open>env0\<close> with renders that fail: request 1 fails, request 2 is aborted.\<close>

definition envFailing :: Env where
  "envFailing =
     env0\<lparr>launchNodeRender :=
            (\<lambda>p. if p = 1 then eActionStatusFailed
                 else if p = 2 then eActionStatusAborted else eActionStatusOK)\<rparr>"


definition bothDispatched :: World where
  "bothDispatched = snd (projr (the (executeAvailableTasks env0 False 2 twoReady)))"


text \<open>
  A fan: the requests 1, 2 and 3 have no dependency and are ready, and the root 4 waits
  for the three. The worlds reached from it in the multithreaded build when renders
  fail: after \<open>executeAvailableTasks(2)\<close>, which hands the requests 1 and 2 to the
  thread pool; after the pool has run request 1, whose render fails; and after the pool
  has then run request 2, which is not rendered any more.
\<close>

definition fanRequests :: "FrameViewRequestPtr \<Rightarrow> FrameViewRequest" where
  "fanRequests p =
     (if p = 1 \<or> p = 2 \<or> p = 3 then fvr0 0 [4]
      else if p = 4 then fvr0 3 []
      else fvr0 0 [])"

definition threeReady :: World where
  "threeReady =
     \<lparr> exec = TreeRenderExecutionDataPrivate_ctor
                \<lparr>isMainExecutionOfTree := True, dependencyFreeRenders := Some [1, 2, 3],
                 allRenderTasksToProcess := [1, 2, 3, 4]\<rparr>,
       render = create env0 NoThrow args0,
       requests = fanRequests,
       threadPool = [],
       notified = 0 \<rparr>"

definition twoInFlight :: World where
  "twoInFlight = snd (projr (the (executeAvailableTasks envFailing False 2 threeReady)))"

definition firstFailed :: World where
  "firstFailed = projr (poolRun envFailing 0 twoInFlight)"

definition secondDone :: World where
  "secondDone = projr (poolRun envFailing 0 firstFailed)"


section \<open>The invariant of the ready set\<close>

text \<open>
  The ready set is a subset of the tasks to process, and every request in it has no
  dependency left.
\<close>

definition readyInvariant :: "World \<Rightarrow> bool" where
  "readyInvariant w =
     (case dependencyFreeRenders (exec w) of
        None \<Rightarrow> True
      | Some ready \<Rightarrow>
          set ready \<subseteq> set (allRenderTasksToProcess (exec w)) \<and>
          (\<forall>r \<in> set ready. getNumDependencies w r = 0))"


text \<open>
  How often request \<open>l\<close> is a listener of a task that is still to process.
\<close>

definition pendingListens :: "World \<Rightarrow> FrameViewRequestPtr \<Rightarrow> nat" where
  "pendingListens w l =
     sum_list (map (\<lambda>x. count_list (listeners (requests w x)) l) (allRenderTasksToProcess (exec w)))"

text \<open>
  What the planning pass and the scheduler maintain between two steps of an execution,
  with \<open>ls\<close> the listeners that a completing task has still to notify (none between the
  steps): the sets hold no request twice; ready requests and requests handed to the
  thread pool are tasks to process without a dependency left, and no request is both;
  the listeners of a task to process are tasks to process; and a request has at least
  as many dependencies left as there are tasks to process, and notifications to come,
  that have it as a listener.
\<close>

definition wellPlanned :: "World \<Rightarrow> FrameViewRequestPtr list \<Rightarrow> bool" where
  "wellPlanned w ls =
     (case dependencyFreeRenders (exec w) of
        None \<Rightarrow> False
      | Some ready \<Rightarrow>
          distinct ready \<and> distinct (allRenderTasksToProcess (exec w)) \<and> distinct (threadPool w) \<and>
          set ready \<subseteq> set (allRenderTasksToProcess (exec w)) \<and>
          (\<forall>r \<in> set ready. getNumDependencies w r = 0) \<and>
          set (threadPool w) \<subseteq> set (allRenderTasksToProcess (exec w)) \<and>
          set (threadPool w) \<inter> set ready = {} \<and>
          (\<forall>r \<in> set (threadPool w). getNumDependencies w r = 0) \<and>
          (\<forall>x \<in> set (allRenderTasksToProcess (exec w)).
             set (listeners (requests w x)) \<subseteq> set (allRenderTasksToProcess (exec w))) \<and>
          set ls \<subseteq> set (allRenderTasksToProcess (exec w)) \<and>
          (\<forall>l. int (count_list ls l) + int (pendingListens w l) \<le> getNumDependencies w l))"

text \<open>
  The steps of an execution once it is planned: a call of \<open>executeAvailableTasks\<close>, or
  the thread pool running one of the runnables it holds.
\<close>

datatype ExecutionStep = ExecuteAvailableTasks int | PoolRun nat

fun executionStep :: "Env \<Rightarrow> bool \<Rightarrow> ExecutionStep \<Rightarrow> World \<Rightarrow> (Fault + World) option" where
  "executionStep env disableMT (ExecuteAvailableTasks nTasks) w =
     map_option (map_sum id snd) (executeAvailableTasks env disableMT nTasks w)"
| "executionStep env disableMT (PoolRun i) w = Some (poolRun env i w)"

fun executionSteps :: "Env \<Rightarrow> bool \<Rightarrow> ExecutionStep list \<Rightarrow> World \<Rightarrow> (Fault + World) option" where
  "executionSteps env disableMT [] w = Some (Inr w)"
| "executionSteps env disableMT (e # es) w =
     (case executionStep env disableMT e w of
        None \<Rightarrow> None
      | Some (Inl f) \<Rightarrow> Some (Inl f)
      | Some (Inr w') \<Rightarrow> executionSteps env disableMT es w')"

section \<open>Properties of the tree render\<close>

lemma setResults_keeps_stroke:
  "setResults env request st r = Inr r' \<Longrightarrow>
     activeStrokeUpdateAreaSet r' = activeStrokeUpdateAreaSet r \<and>
     activeStrokeUpdateArea r' = activeStrokeUpdateArea r \<and> aborted r' = aborted r"
  by (auto simp: setResults_def Let_def split: option.splits if_splits)

lemma callTreeRender_stroke:
  "callTreeRender env c r = Inr r' \<Longrightarrow>
     getRotoPaintActiveStrokeUpdateArea r' out =
       (case c of CallSetActiveStrokeUpdateArea area \<Rightarrow> (True, area)
        | _ \<Rightarrow> getRotoPaintActiveStrokeUpdateArea r out)"
  by (cases c)
     (auto simp: getRotoPaintActiveStrokeUpdateArea_def setActiveStrokeUpdateArea_def
        setRenderAborted_def registerRenderClone_def cleanupRenderClones_def
        dest: setResults_keeps_stroke)

lemma callsTreeRender_stroke:
  "callsTreeRender env cs r = Inr r' \<Longrightarrow>
     getRotoPaintActiveStrokeUpdateArea r' out =
       (if strokeAreasSet cs = [] then getRotoPaintActiveStrokeUpdateArea r out
        else (True, last (strokeAreasSet cs)))"
proof (induction cs arbitrary: r)
  case Nil
  then show ?case by simp
next
  case (Cons c cs)
  from Cons.prems obtain r1 where c1: "callTreeRender env c r = Inr r1"
    and rest: "callsTreeRender env cs r1 = Inr r'"
    by (auto split: sum.splits)
  from Cons.IH[OF rest] callTreeRender_stroke[OF c1, of out]
  show ?case by (cases c) auto
qed

lemma create_stroke_unset: "activeStrokeUpdateAreaSet (create env thr inArgs) = False"
  by (auto simp: create_def init_def fetchOpenGLContext_def TreeRenderPrivate_ctor_def Let_def
      split: option.splits InitThrow.splits prod.splits)

lemma create_aborted: "aborted (create env thr inArgs) = 0"
  by (auto simp: create_def init_def fetchOpenGLContext_def TreeRenderPrivate_ctor_def Let_def
      split: option.splits InitThrow.splits prod.splits)

lemma create_env0_args0:
  "create env0 NoThrow args0 =
     \<lparr> ctorArgs = Some args0, state = eActionStatusOK, renderClones = [],
       outputRequest = None, extraRequestedResults = [2 \<mapsto> None],
       activeStrokeUpdateArea = RectI 0 0 0 0, activeStrokeUpdateAreaSet = False,
       openGLContext = Some 1, cpuOpenGLContext = Some 2, aborted = 0,
       handleNaNs = True, useConcatenations = True \<rparr>"
  by (simp add: create_def init_def fetchOpenGLContext_def TreeRenderPrivate_ctor_def
      env0_def args0_def map_insert_def)

text \<open>
  C10: on a render returned by \<open>create\<close>, after any sequence of calls,
  \<open>getRotoPaintActiveStrokeUpdateArea\<close> returns false and leaves its output as it was
  when \<open>setActiveStrokeUpdateArea\<close> is not among the calls; otherwise it returns true
  and writes the area of the last call of \<open>setActiveStrokeUpdateArea\<close>.
\<close>

theorem getRotoPaintActiveStrokeUpdateArea_last_set:
  "callsTreeRender env cs (create env thr inArgs) = Inr r \<Longrightarrow>
     getRotoPaintActiveStrokeUpdateArea r out =
       (if strokeAreasSet cs = [] then (False, out) else (True, last (strokeAreasSet cs)))"
  using callsTreeRender_stroke[of env cs "create env thr inArgs" r out]
  by (simp add: getRotoPaintActiveStrokeUpdateArea_def create_stroke_unset)

theorem getRotoPaintActiveStrokeUpdateArea_last_set_witness:
  "\<not> isl (callsTreeRender env0
            [CallSetActiveStrokeUpdateArea (RectI 0 0 4 4), CallSetRenderAborted,
             CallSetActiveStrokeUpdateArea (RectI 1 2 3 4), CallSetResults None eActionStatusOK]
            (create env0 NoThrow args0)) \<and>
   getRotoPaintActiveStrokeUpdateArea
     (projr (callsTreeRender env0
            [CallSetActiveStrokeUpdateArea (RectI 0 0 4 4), CallSetRenderAborted,
             CallSetActiveStrokeUpdateArea (RectI 1 2 3 4), CallSetResults None eActionStatusOK]
            (create env0 NoThrow args0)))
     (RectI 9 9 9 9) = (True, RectI 1 2 3 4) \<and>
   getRotoPaintActiveStrokeUpdateArea
     (projr (callsTreeRender env0 [CallSetRenderAborted] (create env0 NoThrow args0)))
     (RectI 9 9 9 9) = (False, RectI 9 9 9 9)"
proof -
  let ?cs = "[CallSetActiveStrokeUpdateArea (RectI 0 0 4 4), CallSetRenderAborted,
             CallSetActiveStrokeUpdateArea (RectI 1 2 3 4), CallSetResults None eActionStatusOK]"
  obtain r where r: "callsTreeRender env0 ?cs (create env0 NoThrow args0) = Inr r"
    by (simp add: setResults_def isFailureRetCode_def)
  obtain r2 where r2: "callsTreeRender env0 [CallSetRenderAborted] (create env0 NoThrow args0) = Inr r2"
    by simp
  from getRotoPaintActiveStrokeUpdateArea_last_set[OF r, of "RectI 9 9 9 9"]
       getRotoPaintActiveStrokeUpdateArea_last_set[OF r2, of "RectI 9 9 9 9"]
  show ?thesis unfolding r r2 by simp
qed

lemma env0_fields:
  "getNode env0 e = e mod 100"
  "getEffect env0 p = 100 + p mod 100"
  "launchNodeRender env0 p = eActionStatusOK"
  "getEffectInstance env0 n = n"
  "createRenderClone env0 e t v = e + 100"
  "isGroupInput env0 e = (e = 10 \<or> e = 11 \<or> e = 12)"
  "getGroup env0 n = (if n = 10 then Some 20 else if n = 12 then Some 21 else None)"
  "getRealInputForInput env0 g n = (if g = 20 \<and> n = 10 then Some 30 else None)"
  "getNumComponents env0 (ImagePlaneDesc l k) = k"
  "isNull env0 (RectD x1 y1 x2 y2) = (x2 \<le> x1 \<or> y2 \<le> y1)"
  "getRegionOfDefinition_public env0 e t s v = (eActionStatusOK, RectD 0 0 1 1)"
  "getLayersProducedAndNeeded_public env0 e t v = (eActionStatusOK, [ImagePlaneDesc ''RGBA'' 4])"
  "getCombinedScale env0 m s = s"
  by (simp_all add: env0_def)

lemma fvr0_fields:
  "fvrStatus (fvr0 n ls) = eFrameViewRequestStatusNotRendered"
  "remainingDepCount (fvr0 n ls) = n"
  "listeners (fvr0 n ls) = ls"
  by (simp_all add: fvr0_def)

lemma args0_fields:
  "treeRootEffect args0 = 4"
  "extraNodesToSample args0 = [2]"
  "time args0 = 1"
  "view args0 = 0"
  "plane args0 = ImagePlaneDesc ''RGBA'' 4"
  "canonicalRoI args0 = RectD 0 0 1 1"
  "proxyScale args0 = (1, 1)"
  "mipMapLevel args0 = 0"
  by (simp_all add: args0_def)

lemma callTreeRender_aborted:
  "callTreeRender env c r = Inr r' \<Longrightarrow>
     aborted r' = (case c of CallSetRenderAborted \<Rightarrow> aborted r + 1 | _ \<Rightarrow> aborted r)"
  by (cases c)
     (auto simp: setActiveStrokeUpdateArea_def
        setRenderAborted_def registerRenderClone_def cleanupRenderClones_def
        dest: setResults_keeps_stroke)

lemma callsTreeRender_aborted:
  "callsTreeRender env cs r = Inr r' \<Longrightarrow> aborted r' = aborted r + of_nat (abortCalls cs)"
proof (induction cs arbitrary: r)
  case Nil
  then show ?case by simp
next
  case (Cons c cs)
  from Cons.prems obtain r1 where c1: "callTreeRender env c r = Inr r1"
    and rest: "callsTreeRender env cs r1 = Inr r'"
    by (auto split: sum.splits)
  from Cons.IH[OF rest] callTreeRender_aborted[OF c1]
  show ?case by (cases c) auto
qed

lemma callsTreeRender_replicate_abort:
  "callsTreeRender env (replicate n CallSetRenderAborted) r = Inr (r\<lparr>aborted := aborted r + of_nat n\<rparr>)"
  by (induction n arbitrary: r) (auto simp: setRenderAborted_def add.assoc add.commute)

lemma abortCalls_replicate: "abortCalls (replicate n CallSetRenderAborted) = n"
  by (induction n) auto

lemma sint_of_nat_small: "k < 2 ^ 31 \<Longrightarrow> sint (of_nat k :: 32 word) = int k"
proof -
  assume k: "k < 2 ^ 31"
  have "(of_nat k :: 32 word) = word_of_int (int k)" by simp
  then have "sint (of_nat k :: 32 word) = (int k + 2 ^ 31) mod 2 ^ 32 - 2 ^ 31"
    by (simp only: int_word_sint) simp
  also have "(int k + 2 ^ 31) mod 2 ^ 32 = int k + 2 ^ 31"
    using k by (intro mod_pos_pos_trivial) auto
  finally show ?thesis by simp
qed

text \<open>
  C8, as stated: \<open>isRenderAborted\<close> is true after one call of \<open>setRenderAborted\<close>, and
  false again after \<open>2 ^ 31\<close> calls, when the 32-bit counter has wrapped around to
  \<open>- 2 ^ 31\<close>.
\<close>

theorem isRenderAborted_wraps_counterexample:
  "isRenderAborted (projr (callsTreeRender env0 (replicate 1 CallSetRenderAborted)
                            (create env0 NoThrow args0))) \<and>
   \<not> isRenderAborted (projr (callsTreeRender env0 (replicate (2 ^ 31) CallSetRenderAborted)
                              (create env0 NoThrow args0)))"
  unfolding callsTreeRender_replicate_abort
  by (simp add: isRenderAborted_def create_aborted)

text \<open>
  C8, amended: on a render returned by \<open>create\<close>, after any sequence of calls with fewer
  than \<open>2 ^ 31\<close> calls of \<open>setRenderAborted\<close>, \<open>isRenderAborted\<close> returns true if and
  only if \<open>setRenderAborted\<close> is among the calls. So within that bound no further call
  makes it false again.
\<close>

theorem isRenderAborted_iff_called:
  "callsTreeRender env cs (create env thr inArgs) = Inr r \<Longrightarrow> abortCalls cs < 2 ^ 31 \<Longrightarrow>
     isRenderAborted r = (0 < abortCalls cs)"
  using callsTreeRender_aborted[of env cs "create env thr inArgs" r]
  by (simp add: isRenderAborted_def create_aborted sint_of_nat_small)

theorem isRenderAborted_iff_called_witness:
  "\<not> isl (callsTreeRender env0
            [CallSetRenderAborted, CallSetActiveStrokeUpdateArea (RectI 1 2 3 4), CallSetRenderAborted]
            (create env0 NoThrow args0)) \<and>
   abortCalls [CallSetRenderAborted, CallSetActiveStrokeUpdateArea (RectI 1 2 3 4), CallSetRenderAborted]
     < 2 ^ 31 \<and>
   isRenderAborted (projr (callsTreeRender env0
            [CallSetRenderAborted, CallSetActiveStrokeUpdateArea (RectI 1 2 3 4), CallSetRenderAborted]
            (create env0 NoThrow args0))) \<and>
   \<not> isRenderAborted (projr (callsTreeRender env0
            [CallSetActiveStrokeUpdateArea (RectI 1 2 3 4)] (create env0 NoThrow args0)))"
proof -
  let ?cs = "[CallSetRenderAborted, CallSetActiveStrokeUpdateArea (RectI 1 2 3 4), CallSetRenderAborted]"
  obtain r where r: "callsTreeRender env0 ?cs (create env0 NoThrow args0) = Inr r"
    by simp
  obtain r2 where r2: "callsTreeRender env0 [CallSetActiveStrokeUpdateArea (RectI 1 2 3 4)]
                         (create env0 NoThrow args0) = Inr r2"
    by simp
  have n: "abortCalls ?cs < 2 ^ 31" by simp
  have n2: "abortCalls [CallSetActiveStrokeUpdateArea (RectI 1 2 3 4)] < 2 ^ 31" by simp
  from isRenderAborted_iff_called[OF r n] isRenderAborted_iff_called[OF r2 n2]
  show ?thesis unfolding r r2 by simp
qed

lemma setResults_Some:
  "setResults env (Some req) st r =
     (case ctorArgs r of
        None \<Rightarrow> Inl NullPointerDereference
      | Some args \<Rightarrow>
          Inr (if getNode env (getEffect env req) = getNode env (treeRootEffect args)
               then r\<lparr>state := (if isFailureRetCode st then st else state r), outputRequest := Some req\<rparr>
               else r\<lparr>state := (if isFailureRetCode st then st else state r),
                      extraRequestedResults :=
                        (if extraRequestedResults r (getNode env (getEffect env req)) = Some None
                         then (extraRequestedResults r)(getNode env (getEffect env req) \<mapsto> Some req)
                         else extraRequestedResults r)\<rparr>))"
  by (simp add: setResults_def Let_def split: option.split)

lemma setResults_None:
  "setResults env None st r = Inr (r\<lparr>state := (if isFailureRetCode st then st else state r)\<rparr>)"
  by (simp add: setResults_def Let_def)

lemma setResults_state:
  "setResults env fvr st r = Inr r' \<Longrightarrow> state r' = (if isFailureRetCode st then st else state r)"
  by (cases fvr; cases "ctorArgs r") (auto simp: setResults_None setResults_Some split: if_splits)

lemma setResults_extras_mono:
  "setResults env fvr st r = Inr r' \<Longrightarrow> extraRequestedResults r n = Some (Some q) \<Longrightarrow>
     extraRequestedResults r' n = Some (Some q)"
  by (cases fvr; cases "ctorArgs r") (auto simp: setResults_None setResults_Some split: if_splits)

lemma callTreeRender_extras_mono:
  "callTreeRender env c r = Inr r' \<Longrightarrow> extraRequestedResults r n = Some (Some q) \<Longrightarrow>
     extraRequestedResults r' n = Some (Some q)"
  by (cases c)
     (auto simp: setActiveStrokeUpdateArea_def setRenderAborted_def registerRenderClone_def
        cleanupRenderClones_def dest: setResults_extras_mono)

lemma callsTreeRender_extras_mono:
  "callsTreeRender env cs r = Inr r' \<Longrightarrow> extraRequestedResults r n = Some (Some q) \<Longrightarrow>
     extraRequestedResults r' n = Some (Some q)"
proof (induction cs arbitrary: r)
  case Nil
  then show ?case by simp
next
  case (Cons c cs)
  from Cons.prems(1) obtain r1 where c1: "callTreeRender env c r = Inr r1"
    and rest: "callsTreeRender env cs r1 = Inr r'"
    by (auto split: sum.splits)
  show ?case
    using Cons.IH[OF rest] callTreeRender_extras_mono[OF c1 Cons.prems(2)] by simp
qed

text \<open>
  C5: a call \<open>setResults(fvr, status)\<close> that returns sets the state of the render to
  \<open>status\<close> when \<open>status\<close> is a failure code and leaves it otherwise. A null \<open>fvr\<close>
  changes nothing else. A non-null \<open>fvr\<close> whose effect belongs to the node of the tree
  root is stored as \<open>outputRequest\<close>; any other non-null \<open>fvr\<close> fills the slot of its
  node in \<open>extraRequestedResults\<close> when the node has a slot and the slot is empty, and
  changes nothing otherwise. A slot that is not empty keeps its request through the
  call and through every sequence of later calls.
\<close>

theorem setResults_stores_once:
  assumes call: "setResults env fvr st r = Inr r'"
      and later: "callsTreeRender env cs r' = Inr r''"
  shows "state r' = (if isFailureRetCode st then st else state r) \<and>
         (case fvr of
            None \<Rightarrow> outputRequest r' = outputRequest r \<and> extraRequestedResults r' = extraRequestedResults r
          | Some req \<Rightarrow>
              (\<exists>args. ctorArgs r = Some args \<and>
                (if getNode env (getEffect env req) = getNode env (treeRootEffect args)
                 then outputRequest r' = Some req \<and> extraRequestedResults r' = extraRequestedResults r
                 else outputRequest r' = outputRequest r \<and>
                      extraRequestedResults r' =
                        (if extraRequestedResults r (getNode env (getEffect env req)) = Some None
                         then (extraRequestedResults r)(getNode env (getEffect env req) \<mapsto> Some req)
                         else extraRequestedResults r)))) \<and>
         (\<forall>n q. extraRequestedResults r n = Some (Some q) \<longrightarrow> extraRequestedResults r' n = Some (Some q)) \<and>
         (\<forall>n q. extraRequestedResults r' n = Some (Some q) \<longrightarrow> extraRequestedResults r'' n = Some (Some q))"
proof -
  have a: "state r' = (if isFailureRetCode st then st else state r)"
    using call by (rule setResults_state)
  have b: "(case fvr of
            None \<Rightarrow> outputRequest r' = outputRequest r \<and> extraRequestedResults r' = extraRequestedResults r
          | Some req \<Rightarrow>
              (\<exists>args. ctorArgs r = Some args \<and>
                (if getNode env (getEffect env req) = getNode env (treeRootEffect args)
                 then outputRequest r' = Some req \<and> extraRequestedResults r' = extraRequestedResults r
                 else outputRequest r' = outputRequest r \<and>
                      extraRequestedResults r' =
                        (if extraRequestedResults r (getNode env (getEffect env req)) = Some None
                         then (extraRequestedResults r)(getNode env (getEffect env req) \<mapsto> Some req)
                         else extraRequestedResults r))))"
  proof (cases fvr)
    case None
    with call show ?thesis by (auto simp: setResults_None)
  next
    case (Some req)
    with call show ?thesis by (cases "ctorArgs r") (auto simp: setResults_Some)
  qed
  have c: "\<forall>n q. extraRequestedResults r n = Some (Some q) \<longrightarrow> extraRequestedResults r' n = Some (Some q)"
    using setResults_extras_mono[OF call] by blast
  have d: "\<forall>n q. extraRequestedResults r' n = Some (Some q) \<longrightarrow> extraRequestedResults r'' n = Some (Some q)"
    using callsTreeRender_extras_mono[OF later] by blast
  from a b c d show ?thesis by (intro conjI)
qed

theorem setResults_stores_once_witness:
  "\<not> isl (setResults env0 (Some 2) eActionStatusOK (create env0 NoThrow args0)) \<and>
   \<not> isl (callsTreeRender env0
            [CallSetResults (Some 12) eActionStatusFailed, CallSetResults (Some 4) eActionStatusOK]
            (projr (setResults env0 (Some 2) eActionStatusOK (create env0 NoThrow args0)))) \<and>
   extraRequestedResults (create env0 NoThrow args0) 2 = Some None \<and>
   extraRequestedResults
     (projr (setResults env0 (Some 2) eActionStatusOK (create env0 NoThrow args0))) 2 = Some (Some 2) \<and>
   extraRequestedResults
     (projr (callsTreeRender env0
            [CallSetResults (Some 12) eActionStatusFailed, CallSetResults (Some 4) eActionStatusOK]
            (projr (setResults env0 (Some 2) eActionStatusOK (create env0 NoThrow args0))))) 2
     = Some (Some 2)"
proof -
  let ?cs = "[CallSetResults (Some 12) eActionStatusFailed, CallSetResults (Some 4) eActionStatusOK]"
  have "\<exists>r'. setResults env0 (Some 2) eActionStatusOK (create env0 NoThrow args0) = Inr r' \<and>
          extraRequestedResults r' 2 = Some (Some 2) \<and> ctorArgs r' = Some args0"
    by (simp add: create_env0_args0 setResults_Some isFailureRetCode_def env0_fields args0_fields)
  then obtain r' where r': "setResults env0 (Some 2) eActionStatusOK (create env0 NoThrow args0) = Inr r'"
    and slot: "extraRequestedResults r' 2 = Some (Some 2)" and args: "ctorArgs r' = Some args0"
    by blast
  have "\<exists>r1. setResults env0 (Some 12) eActionStatusFailed r' = Inr r1 \<and> ctorArgs r1 = Some args0"
    using slot args
    by (simp add: setResults_Some isFailureRetCode_def env0_fields args0_fields)
  then obtain r1 where r1: "setResults env0 (Some 12) eActionStatusFailed r' = Inr r1"
    and args1: "ctorArgs r1 = Some args0"
    by blast
  have "\<exists>r''. setResults env0 (Some 4) eActionStatusOK r1 = Inr r''"
    using args1
    by (simp add: setResults_Some isFailureRetCode_def env0_fields args0_fields)
  then obtain r'' where r2: "setResults env0 (Some 4) eActionStatusOK r1 = Inr r''"
    by blast
  have r'': "callsTreeRender env0 ?cs r' = Inr r''"
    by (simp add: r1 r2)
  have e: "extraRequestedResults (create env0 NoThrow args0) 2 = Some None"
    by (simp add: create_env0_args0)
  have "extraRequestedResults r'' 2 = Some (Some 2)"
    by (rule setResults_stores_once[OF r' r'', THEN conjunct2, THEN conjunct2, THEN conjunct2,
          rule_format, OF slot])
  with slot e show ?thesis
    by (simp only: r' r'' sum.sel sum.disc) simp
qed

section \<open>Properties of \<open>create\<close> and of the creation of executions\<close>

lemma init_ctorArgs: "ctorArgs (fst (init env thr inArgs r)) = Some inArgs"
  by (cases thr) (simp_all add: init_def fetchOpenGLContext_def Let_def split: option.splits prod.splits)

lemma init_state: "state (fst (init env thr inArgs r)) = state r"
  by (cases thr) (simp_all add: init_def fetchOpenGLContext_def Let_def split: option.splits prod.splits)

lemma init_thrown: "snd (init env thr inArgs r) = (thr \<noteq> NoThrow)"
  by (cases thr) (simp_all add: init_def Let_def)

lemma create_no_group:
  "isGroupInput env (treeRootEffect inArgs) \<Longrightarrow>
   getGroup env (getNode env (treeRootEffect inArgs)) = None \<Longrightarrow>
     create env thr inArgs = TreeRenderPrivate_ctor\<lparr>state := eActionStatusFailed\<rparr>"
  by (simp add: create_def)

lemma create_no_real_input:
  "isGroupInput env (treeRootEffect inArgs) \<Longrightarrow>
   getGroup env (getNode env (treeRootEffect inArgs)) = Some g \<Longrightarrow>
   getRealInputForInput env g (getNode env (treeRootEffect inArgs)) = None \<Longrightarrow>
     create env thr inArgs = TreeRenderPrivate_ctor\<lparr>state := eActionStatusFailed\<rparr>"
  by (simp add: create_def)

lemma create_real_input:
  "isGroupInput env (treeRootEffect inArgs) \<Longrightarrow>
   getGroup env (getNode env (treeRootEffect inArgs)) = Some g \<Longrightarrow>
   getRealInputForInput env g (getNode env (treeRootEffect inArgs)) = Some realInput \<Longrightarrow>
     ctorArgs (create env thr inArgs) = Some (inArgs\<lparr>treeRootEffect := getEffectInstance env realInput\<rparr>) \<and>
     state (create env thr inArgs) = (if thr = NoThrow then eActionStatusOK else eActionStatusFailed)"
  using init_ctorArgs[of env thr "inArgs\<lparr>treeRootEffect := getEffectInstance env realInput\<rparr>" TreeRenderPrivate_ctor]
        init_state[of env thr "inArgs\<lparr>treeRootEffect := getEffectInstance env realInput\<rparr>" TreeRenderPrivate_ctor]
        init_thrown[of env thr "inArgs\<lparr>treeRootEffect := getEffectInstance env realInput\<rparr>" TreeRenderPrivate_ctor]
  by (auto simp: create_def Let_def TreeRenderPrivate_ctor_def split: prod.splits)



lemma createExecutionDataInternal_planner_cong:
  assumes agree: "\<And>t v scale mip pl roi w'.
                    P treeRoot t v scale mip pl roi w' = P' treeRoot t v scale mip pl roi w'"
  shows "createExecutionDataInternal env P isMain treeRoot t v scale mip planeParam roiParam w =
         createExecutionDataInternal env P' isMain treeRoot t v scale mip planeParam roiParam w"
proof -
  have eq: "createExecutionDataInternal_plan P treeRoot = createExecutionDataInternal_plan P' treeRoot"
    by (intro ext) (simp add: createExecutionDataInternal_plan_def agree)
  show ?thesis
    unfolding createExecutionDataInternal_def eq by (rule refl)
qed


lemma getTreeRootPlane_fst:
  "fst (getTreeRootPlane env effect t v pl) = fst (getLayersProducedAndNeeded_public env effect t v)"
  by (simp add: getTreeRootPlane_def split: prod.splits list.splits)

lemma getTreeRootRoD_fst:
  "fst (getTreeRootRoD env effect t v scale rod) = fst (getRegionOfDefinition_public env effect t scale v)"
  by (simp add: getTreeRootRoD_def split: prod.splits)

text \<open>
  When the render has not failed and the plane and the region of interest are given or
  can be computed, \<open>createExecutionDataInternal\<close> calls the planning pass on a new
  execution without any task, and returns what the pass leaves.
\<close>

lemma createExecutionDataInternal_plans:
  assumes ok: "\<not> isFailureRetCode (state (render w))"
      and planeOK: "planeParam = None \<longrightarrow>
                      \<not> isFailureRetCode (fst (getLayersProducedAndNeeded_public env
                                                (createRenderClone env treeRoot t v) t v))"
      and roiOK: "roiParam = None \<longrightarrow>
                    \<not> isFailureRetCode (fst (getRegionOfDefinition_public env
                                              (createRenderClone env treeRoot t v) t
                                              (getCombinedScale env mip scale) v))"
  shows "\<exists>w1. render w1 = render w \<and> requests w1 = requests w \<and>
              threadPool w1 = threadPool w \<and> notified w1 = notified w \<and>
              dependencyFreeRenders (exec w1) = Some [] \<and>
              allRenderTasksToProcess (exec w1) = [] \<and>
              isMainExecutionOfTree (exec w1) = isMain \<and>
              (\<forall>p. planeParam = Some p \<longrightarrow> execPlane (exec w1) = p) \<and>
              (\<forall>r. roiParam = Some r \<longrightarrow> execCanonicalRoI (exec w1) = r) \<and>
              (\<forall>Q. createExecutionDataInternal env Q isMain treeRoot t v scale mip planeParam roiParam w =
                 (case Q treeRoot t v scale mip (execPlane (exec w1)) (execCanonicalRoI (exec w1)) w1 of
                    (stat, w2) \<Rightarrow>
                      if isFailureRetCode stat then Inr (w2\<lparr>exec := (exec w2)\<lparr>status := stat\<rparr>\<rparr>)
                      else (case dependencyFreeRenders (exec w2) of
                              None \<Rightarrow> Inl NullPointerDereference
                            | Some ready \<Rightarrow>
                                Inr (w2\<lparr>exec := (exec w2)\<lparr>status :=
                                       (if ready = [] then eActionStatusFailed else stat)\<rparr>\<rparr>))))"
proof -
  define clone where "clone = createRenderClone env treeRoot t v"
  define wa where "wa = w\<lparr>exec := TreeRenderExecutionDataPrivate_ctor\<lparr>isMainExecutionOfTree := isMain\<rparr>\<rparr>"
  define wb where "wb = (case planeParam of
                     Some p \<Rightarrow> wa\<lparr>exec := (exec wa)\<lparr>execPlane := p\<rparr>\<rparr>
                   | None \<Rightarrow>
                       (let (stat, pl) = getTreeRootPlane env clone t v (execPlane (exec wa))
                        in wa\<lparr>exec := (exec wa)\<lparr>status := stat, execPlane := pl\<rparr>\<rparr>))"
  define wc where "wc = (case roiParam of
                           Some roi \<Rightarrow> wb\<lparr>exec := (exec wb)\<lparr>execCanonicalRoI := roi\<rparr>\<rparr>
                         | None \<Rightarrow>
                             (let (stat, rod) = getTreeRootRoD env clone t v
                                                  (getCombinedScale env mip scale) (execCanonicalRoI (exec wb))
                              in wb\<lparr>exec := (exec wb)\<lparr>status := stat, execCanonicalRoI := rod\<rparr>\<rparr>))"
  define w1 where "w1 = wc\<lparr>exec := (exec wc)\<lparr>dependencyFreeRenders := Some []\<rparr>\<rparr>"
  have sb: "planeParam = None \<Longrightarrow> status (exec wb) = fst (getTreeRootPlane env clone t v (execPlane (exec wa)))"
    by (simp add: wb_def split: prod.splits)
  have sc: "roiParam = None \<Longrightarrow>
              status (exec wc) = fst (getTreeRootRoD env clone t v (getCombinedScale env mip scale)
                                        (execCanonicalRoI (exec wb)))"
    by (simp add: wc_def split: prod.splits)
  have nb: "\<not> (planeParam = None \<and> isFailureRetCode (status (exec wb)))"
    using planeOK sb by (auto simp: getTreeRootPlane_fst clone_def)
  have nc: "\<not> (roiParam = None \<and> isFailureRetCode (status (exec wc)))"
    using roiOK sc by (auto simp: getTreeRootRoD_fst clone_def)
  have eq: "createExecutionDataInternal env Q isMain treeRoot t v scale mip planeParam roiParam w =
              createExecutionDataInternal_plan Q treeRoot t v scale mip wc" for Q
  proof -
    have ra: "isFailureRetCode (state (render wa)) = False" using ok by (simp add: wa_def)
    have nb': "(planeParam = None \<and> isFailureRetCode (status (exec wb))) = False" using nb by simp
    have nc': "(roiParam = None \<and> isFailureRetCode (status (exec wc))) = False" using nc by simp
    show ?thesis
      unfolding createExecutionDataInternal_def Let_def wa_def[symmetric] clone_def[symmetric]
        wb_def[unfolded Let_def, symmetric] wc_def[unfolded Let_def, symmetric]
      by (simp only: ra nb' nc' if_False)
  qed
  have fb: "render wb = render w" "requests wb = requests w" "threadPool wb = threadPool w"
    "notified wb = notified w" "allRenderTasksToProcess (exec wb) = []"
    "isMainExecutionOfTree (exec wb) = isMain"
    by (simp_all add: wb_def wa_def TreeRenderExecutionDataPrivate_ctor_def
          split: option.splits prod.splits)
  have fc: "render wc = render w" "requests wc = requests w" "threadPool wc = threadPool w"
    "notified wc = notified w" "allRenderTasksToProcess (exec wc) = []"
    "isMainExecutionOfTree (exec wc) = isMain"
    using fb by (simp_all add: wc_def split: option.splits prod.splits)
  have pb: "planeParam = Some p \<Longrightarrow> execPlane (exec wb) = p" for p
    by (simp add: wb_def)
  have pc: "execPlane (exec wc) = execPlane (exec wb)"
    by (simp add: wc_def split: option.splits prod.splits)
  have rc: "roiParam = Some r \<Longrightarrow> execCanonicalRoI (exec wc) = r" for r
    by (simp add: wc_def)
  have plan: "createExecutionDataInternal_plan Q treeRoot t v scale mip wc =
                 (case Q treeRoot t v scale mip (execPlane (exec w1)) (execCanonicalRoI (exec w1)) w1 of
                    (stat, w2) \<Rightarrow>
                      if isFailureRetCode stat then Inr (w2\<lparr>exec := (exec w2)\<lparr>status := stat\<rparr>\<rparr>)
                      else (case dependencyFreeRenders (exec w2) of
                              None \<Rightarrow> Inl NullPointerDereference
                            | Some ready \<Rightarrow>
                                Inr (w2\<lparr>exec := (exec w2)\<lparr>status :=
                                       (if ready = [] then eActionStatusFailed else stat)\<rparr>\<rparr>)))" for Q
    by (simp add: createExecutionDataInternal_plan_def w1_def Let_def
          split: prod.splits option.splits)
  have "render w1 = render w \<and> requests w1 = requests w \<and>
              threadPool w1 = threadPool w \<and> notified w1 = notified w \<and>
              dependencyFreeRenders (exec w1) = Some [] \<and>
              allRenderTasksToProcess (exec w1) = [] \<and>
              isMainExecutionOfTree (exec w1) = isMain \<and>
              (\<forall>p. planeParam = Some p \<longrightarrow> execPlane (exec w1) = p) \<and>
              (\<forall>r. roiParam = Some r \<longrightarrow> execCanonicalRoI (exec w1) = r)"
    using fc pb pc rc by (simp add: w1_def)
  moreover have "\<forall>Q. createExecutionDataInternal env Q isMain treeRoot t v scale mip planeParam roiParam w =
                 (case Q treeRoot t v scale mip (execPlane (exec w1)) (execCanonicalRoI (exec w1)) w1 of
                    (stat, w2) \<Rightarrow>
                      if isFailureRetCode stat then Inr (w2\<lparr>exec := (exec w2)\<lparr>status := stat\<rparr>\<rparr>)
                      else (case dependencyFreeRenders (exec w2) of
                              None \<Rightarrow> Inl NullPointerDereference
                            | Some ready \<Rightarrow>
                                Inr (w2\<lparr>exec := (exec w2)\<lparr>status :=
                                       (if ready = [] then eActionStatusFailed else stat)\<rparr>\<rparr>)))"
    using eq plan by simp
  ultimately show ?thesis by blast
qed

text \<open>
  C7: when the tree root passed to \<open>create\<close> is a group input, the root stored in the
  render is the effect of the real input that the enclosing group gives for it, and,
  when \<open>init\<close> is not left by an exception, the render is OK and
  \<open>createMainExecutionData\<close> is \<open>createExecutionDataInternal\<close> on that effect: its
  result depends on the planning pass only through what the pass does on that root.
  When moreover the plane and the region of interest are given, or can be computed for
  that root, the planning pass is called with that effect as the tree root, on a new
  main execution without any task and with an empty ready set, and the execution
  returned is the one that the pass leaves, with the status that the pass returns
  (Failed when the pass returns without a failure and leaves no request ready).
  When there is no enclosing group, or the group has no real input for the node, the
  render is returned with the state Failed.
\<close>

theorem create_group_input_root:
  assumes gi: "isGroupInput env (treeRootEffect inArgs)"
  shows "(case getGroup env (getNode env (treeRootEffect inArgs)) of
            None \<Rightarrow> state (create env thr inArgs) = eActionStatusFailed
          | Some g \<Rightarrow>
              (case getRealInputForInput env g (getNode env (treeRootEffect inArgs)) of
                 None \<Rightarrow> state (create env thr inArgs) = eActionStatusFailed
               | Some realInput \<Rightarrow>
                   ctorArgs (create env thr inArgs) =
                     Some (inArgs\<lparr>treeRootEffect := getEffectInstance env realInput\<rparr>) \<and>
                   (thr = NoThrow \<and> render w = create env thr inArgs \<longrightarrow>
                      state (create env thr inArgs) = eActionStatusOK \<and>
                      createMainExecutionData env P w =
                        createExecutionDataInternal env P True (getEffectInstance env realInput)
                          (time inArgs) (view inArgs) (proxyScale inArgs) (mipMapLevel inArgs)
                          (if getNumComponents env (plane inArgs) = 0 then None else Some (plane inArgs))
                          (if isNull env (canonicalRoI inArgs) then None else Some (canonicalRoI inArgs)) w \<and>
                      ((\<forall>t v scale mip pl roi w'.
                          P (getEffectInstance env realInput) t v scale mip pl roi w' =
                          P' (getEffectInstance env realInput) t v scale mip pl roi w') \<longrightarrow>
                       createMainExecutionData env P w = createMainExecutionData env P' w) \<and>
                      ((getNumComponents env (plane inArgs) = 0 \<longrightarrow>
                          \<not> isFailureRetCode (fst (getLayersProducedAndNeeded_public env
                              (createRenderClone env (getEffectInstance env realInput) (time inArgs) (view inArgs))
                              (time inArgs) (view inArgs)))) \<and>
                       (isNull env (canonicalRoI inArgs) \<longrightarrow>
                          \<not> isFailureRetCode (fst (getRegionOfDefinition_public env
                              (createRenderClone env (getEffectInstance env realInput) (time inArgs) (view inArgs))
                              (time inArgs) (getCombinedScale env (mipMapLevel inArgs) (proxyScale inArgs))
                              (view inArgs)))) \<longrightarrow>
                       (\<exists>w1. render w1 = render w \<and> requests w1 = requests w \<and>
                             dependencyFreeRenders (exec w1) = Some [] \<and>
                             allRenderTasksToProcess (exec w1) = [] \<and>
                             isMainExecutionOfTree (exec w1) \<and>
                             (getNumComponents env (plane inArgs) \<noteq> 0 \<longrightarrow>
                                execPlane (exec w1) = plane inArgs) \<and>
                             (\<not> isNull env (canonicalRoI inArgs) \<longrightarrow>
                                execCanonicalRoI (exec w1) = canonicalRoI inArgs) \<and>
                             (\<forall>Q. createMainExecutionData env Q w =
                                (case Q (getEffectInstance env realInput) (time inArgs) (view inArgs)
                                        (proxyScale inArgs) (mipMapLevel inArgs)
                                        (execPlane (exec w1)) (execCanonicalRoI (exec w1)) w1 of
                                   (stat, w2) \<Rightarrow>
                                     if isFailureRetCode stat
                                     then Inr (w2\<lparr>exec := (exec w2)\<lparr>status := stat\<rparr>\<rparr>)
                                     else (case dependencyFreeRenders (exec w2) of
                                             None \<Rightarrow> Inl NullPointerDereference
                                           | Some ready \<Rightarrow>
                                               Inr (w2\<lparr>exec := (exec w2)\<lparr>status :=
                                                 (if ready = [] then eActionStatusFailed else stat)\<rparr>\<rparr>)))))))))"
proof (cases "getGroup env (getNode env (treeRootEffect inArgs))")
  case None
  with gi show ?thesis by (simp add: create_no_group)
next
  case (Some g)
  note grp = this
  show ?thesis
  proof (cases "getRealInputForInput env g (getNode env (treeRootEffect inArgs))")
    case None
    with gi grp show ?thesis by (simp add: create_no_real_input)
  next
    case (Some realInput)
    let ?root = "getEffectInstance env realInput"
    let ?pp = "if getNumComponents env (plane inArgs) = 0 then None else Some (plane inArgs)"
    let ?rp = "if isNull env (canonicalRoI inArgs) then None else Some (canonicalRoI inArgs)"
    note cr = create_real_input[OF gi grp Some, of thr]
    have args: "ctorArgs (create env thr inArgs) =
                  Some (inArgs\<lparr>treeRootEffect := ?root\<rparr>)"
      using cr by simp
    have main: "createMainExecutionData env Q w =
                   createExecutionDataInternal env Q True ?root
                     (time inArgs) (view inArgs) (proxyScale inArgs) (mipMapLevel inArgs) ?pp ?rp w"
      if "render w = create env thr inArgs" for Q
      using args that by (simp add: createMainExecutionData_def)
    have rest: "state (create env thr inArgs) = eActionStatusOK \<and>
                createMainExecutionData env P w =
                   createExecutionDataInternal env P True ?root
                     (time inArgs) (view inArgs) (proxyScale inArgs) (mipMapLevel inArgs) ?pp ?rp w \<and>
                ((\<forall>t v scale mip pl roi w'.
                    P ?root t v scale mip pl roi w' = P' ?root t v scale mip pl roi w') \<longrightarrow>
                 createMainExecutionData env P w = createMainExecutionData env P' w) \<and>
                ((getNumComponents env (plane inArgs) = 0 \<longrightarrow>
                          \<not> isFailureRetCode (fst (getLayersProducedAndNeeded_public env
                              (createRenderClone env ?root (time inArgs) (view inArgs))
                              (time inArgs) (view inArgs)))) \<and>
                       (isNull env (canonicalRoI inArgs) \<longrightarrow>
                          \<not> isFailureRetCode (fst (getRegionOfDefinition_public env
                              (createRenderClone env ?root (time inArgs) (view inArgs))
                              (time inArgs) (getCombinedScale env (mipMapLevel inArgs) (proxyScale inArgs))
                              (view inArgs)))) \<longrightarrow>
                       (\<exists>w1. render w1 = render w \<and> requests w1 = requests w \<and>
                             dependencyFreeRenders (exec w1) = Some [] \<and>
                             allRenderTasksToProcess (exec w1) = [] \<and>
                             isMainExecutionOfTree (exec w1) \<and>
                             (getNumComponents env (plane inArgs) \<noteq> 0 \<longrightarrow>
                                execPlane (exec w1) = plane inArgs) \<and>
                             (\<not> isNull env (canonicalRoI inArgs) \<longrightarrow>
                                execCanonicalRoI (exec w1) = canonicalRoI inArgs) \<and>
                             (\<forall>Q. createMainExecutionData env Q w =
                                (case Q ?root (time inArgs) (view inArgs)
                                        (proxyScale inArgs) (mipMapLevel inArgs)
                                        (execPlane (exec w1)) (execCanonicalRoI (exec w1)) w1 of
                                   (stat, w2) \<Rightarrow>
                                     if isFailureRetCode stat
                                     then Inr (w2\<lparr>exec := (exec w2)\<lparr>status := stat\<rparr>\<rparr>)
                                     else (case dependencyFreeRenders (exec w2) of
                                             None \<Rightarrow> Inl NullPointerDereference
                                           | Some ready \<Rightarrow>
                                               Inr (w2\<lparr>exec := (exec w2)\<lparr>status :=
                                                 (if ready = [] then eActionStatusFailed else stat)\<rparr>\<rparr>))))))"
      if nt: "thr = NoThrow" and rw: "render w = create env thr inArgs"
    proof (intro conjI impI)
      show ok: "state (create env thr inArgs) = eActionStatusOK" using cr nt by simp
      show "createMainExecutionData env P w =
                   createExecutionDataInternal env P True ?root
                     (time inArgs) (view inArgs) (proxyScale inArgs) (mipMapLevel inArgs) ?pp ?rp w"
        by (rule main[OF rw])
      {
        assume agree: "\<forall>t v scale mip pl roi w'.
                      P ?root t v scale mip pl roi w' = P' ?root t v scale mip pl roi w'"
        show "createMainExecutionData env P w = createMainExecutionData env P' w"
          unfolding main[OF rw]
          by (rule createExecutionDataInternal_planner_cong) (rule agree[rule_format])
      }
      assume pre: "(getNumComponents env (plane inArgs) = 0 \<longrightarrow>
                          \<not> isFailureRetCode (fst (getLayersProducedAndNeeded_public env
                              (createRenderClone env ?root (time inArgs) (view inArgs))
                              (time inArgs) (view inArgs)))) \<and>
                       (isNull env (canonicalRoI inArgs) \<longrightarrow>
                          \<not> isFailureRetCode (fst (getRegionOfDefinition_public env
                              (createRenderClone env ?root (time inArgs) (view inArgs))
                              (time inArgs) (getCombinedScale env (mipMapLevel inArgs) (proxyScale inArgs))
                              (view inArgs))))"
      have okw: "\<not> isFailureRetCode (state (render w))"
        using ok rw by (simp add: isFailureRetCode_def)
      have p1: "?pp = None \<longrightarrow>
                      \<not> isFailureRetCode (fst (getLayersProducedAndNeeded_public env
                              (createRenderClone env ?root (time inArgs) (view inArgs))
                              (time inArgs) (view inArgs)))"
        using pre by (simp split: if_splits)
      have p2: "?rp = None \<longrightarrow>
                          \<not> isFailureRetCode (fst (getRegionOfDefinition_public env
                              (createRenderClone env ?root (time inArgs) (view inArgs))
                              (time inArgs) (getCombinedScale env (mipMapLevel inArgs) (proxyScale inArgs))
                              (view inArgs)))"
        using pre by (simp split: if_splits)
      from createExecutionDataInternal_plans[OF okw p1 p2, of True]
      obtain w1 where w1: "render w1 = render w" "requests w1 = requests w"
        "dependencyFreeRenders (exec w1) = Some []" "allRenderTasksToProcess (exec w1) = []"
        "isMainExecutionOfTree (exec w1) = True"
        "\<forall>p. ?pp = Some p \<longrightarrow> execPlane (exec w1) = p"
        "\<forall>r. ?rp = Some r \<longrightarrow> execCanonicalRoI (exec w1) = r"
        and q: "\<forall>Q. createExecutionDataInternal env Q True ?root
                     (time inArgs) (view inArgs) (proxyScale inArgs) (mipMapLevel inArgs) ?pp ?rp w =
                 (case Q ?root (time inArgs) (view inArgs) (proxyScale inArgs) (mipMapLevel inArgs)
                         (execPlane (exec w1)) (execCanonicalRoI (exec w1)) w1 of
                    (stat, w2) \<Rightarrow>
                      if isFailureRetCode stat then Inr (w2\<lparr>exec := (exec w2)\<lparr>status := stat\<rparr>\<rparr>)
                      else (case dependencyFreeRenders (exec w2) of
                              None \<Rightarrow> Inl NullPointerDereference
                            | Some ready \<Rightarrow>
                                Inr (w2\<lparr>exec := (exec w2)\<lparr>status :=
                                       (if ready = [] then eActionStatusFailed else stat)\<rparr>\<rparr>)))"
        by blast
      have a: "getNumComponents env (plane inArgs) \<noteq> 0 \<longrightarrow> execPlane (exec w1) = plane inArgs"
        using w1(6) by simp
      have b: "\<not> isNull env (canonicalRoI inArgs) \<longrightarrow> execCanonicalRoI (exec w1) = canonicalRoI inArgs"
        using w1(7) by simp
      have c: "\<forall>Q. createMainExecutionData env Q w =
                 (case Q ?root (time inArgs) (view inArgs) (proxyScale inArgs) (mipMapLevel inArgs)
                         (execPlane (exec w1)) (execCanonicalRoI (exec w1)) w1 of
                    (stat, w2) \<Rightarrow>
                      if isFailureRetCode stat then Inr (w2\<lparr>exec := (exec w2)\<lparr>status := stat\<rparr>\<rparr>)
                      else (case dependencyFreeRenders (exec w2) of
                              None \<Rightarrow> Inl NullPointerDereference
                            | Some ready \<Rightarrow>
                                Inr (w2\<lparr>exec := (exec w2)\<lparr>status :=
                                       (if ready = [] then eActionStatusFailed else stat)\<rparr>\<rparr>)))"
        unfolding main[OF rw] by (rule q)
      from w1(1-5) a b c
      show "\<exists>w1. render w1 = render w \<and> requests w1 = requests w \<and>
                             dependencyFreeRenders (exec w1) = Some [] \<and>
                             allRenderTasksToProcess (exec w1) = [] \<and>
                             isMainExecutionOfTree (exec w1) \<and>
                             (getNumComponents env (plane inArgs) \<noteq> 0 \<longrightarrow>
                                execPlane (exec w1) = plane inArgs) \<and>
                             (\<not> isNull env (canonicalRoI inArgs) \<longrightarrow>
                                execCanonicalRoI (exec w1) = canonicalRoI inArgs) \<and>
                             (\<forall>Q. createMainExecutionData env Q w =
                                (case Q ?root (time inArgs) (view inArgs)
                                        (proxyScale inArgs) (mipMapLevel inArgs)
                                        (execPlane (exec w1)) (execCanonicalRoI (exec w1)) w1 of
                                   (stat, w2) \<Rightarrow>
                                     if isFailureRetCode stat
                                     then Inr (w2\<lparr>exec := (exec w2)\<lparr>status := stat\<rparr>\<rparr>)
                                     else (case dependencyFreeRenders (exec w2) of
                                             None \<Rightarrow> Inl NullPointerDereference
                                           | Some ready \<Rightarrow>
                                               Inr (w2\<lparr>exec := (exec w2)\<lparr>status :=
                                                 (if ready = [] then eActionStatusFailed else stat)\<rparr>\<rparr>))))"
        by (intro exI[of _ w1] conjI) simp_all
    qed
    show ?thesis
      unfolding grp Some option.case
    proof (rule conjI[OF args], rule impI, erule conjE)
      assume "thr = NoThrow" and "render w = create env thr inArgs"
      then show "state (create env thr inArgs) = eActionStatusOK \<and>
                createMainExecutionData env P w =
                   createExecutionDataInternal env P True ?root
                     (time inArgs) (view inArgs) (proxyScale inArgs) (mipMapLevel inArgs) ?pp ?rp w \<and>
                ((\<forall>t v scale mip pl roi w'.
                    P ?root t v scale mip pl roi w' = P' ?root t v scale mip pl roi w') \<longrightarrow>
                 createMainExecutionData env P w = createMainExecutionData env P' w) \<and>
                ((getNumComponents env (plane inArgs) = 0 \<longrightarrow>
                          \<not> isFailureRetCode (fst (getLayersProducedAndNeeded_public env
                              (createRenderClone env ?root (time inArgs) (view inArgs))
                              (time inArgs) (view inArgs)))) \<and>
                       (isNull env (canonicalRoI inArgs) \<longrightarrow>
                          \<not> isFailureRetCode (fst (getRegionOfDefinition_public env
                              (createRenderClone env ?root (time inArgs) (view inArgs))
                              (time inArgs) (getCombinedScale env (mipMapLevel inArgs) (proxyScale inArgs))
                              (view inArgs)))) \<longrightarrow>
                       (\<exists>w1. render w1 = render w \<and> requests w1 = requests w \<and>
                             dependencyFreeRenders (exec w1) = Some [] \<and>
                             allRenderTasksToProcess (exec w1) = [] \<and>
                             isMainExecutionOfTree (exec w1) \<and>
                             (getNumComponents env (plane inArgs) \<noteq> 0 \<longrightarrow>
                                execPlane (exec w1) = plane inArgs) \<and>
                             (\<not> isNull env (canonicalRoI inArgs) \<longrightarrow>
                                execCanonicalRoI (exec w1) = canonicalRoI inArgs) \<and>
                             (\<forall>Q. createMainExecutionData env Q w =
                                (case Q ?root (time inArgs) (view inArgs)
                                        (proxyScale inArgs) (mipMapLevel inArgs)
                                        (execPlane (exec w1)) (execCanonicalRoI (exec w1)) w1 of
                                   (stat, w2) \<Rightarrow>
                                     if isFailureRetCode stat
                                     then Inr (w2\<lparr>exec := (exec w2)\<lparr>status := stat\<rparr>\<rparr>)
                                     else (case dependencyFreeRenders (exec w2) of
                                             None \<Rightarrow> Inl NullPointerDereference
                                           | Some ready \<Rightarrow>
                                               Inr (w2\<lparr>exec := (exec w2)\<lparr>status :=
                                                 (if ready = [] then eActionStatusFailed else stat)\<rparr>\<rparr>))))))"
        by (rule rest)
    qed
  qed
qed

theorem create_group_input_root_witness:
  "isGroupInput env0 (treeRootEffect (args0\<lparr>treeRootEffect := 10\<rparr>)) \<and>
   ctorArgs (create env0 NoThrow (args0\<lparr>treeRootEffect := 10\<rparr>)) = Some (args0\<lparr>treeRootEffect := 30\<rparr>) \<and>
   state (create env0 NoThrow (args0\<lparr>treeRootEffect := 10\<rparr>)) = eActionStatusOK \<and>
   map_sum id (\<lambda>w. (status (exec w), dependencyFreeRenders (exec w), allRenderTasksToProcess (exec w),
                     execOutputRequest (exec w), remainingDepCount (requests w 30),
                     listeners (requests w 1)))
     (createMainExecutionData env0 planRootAndInput groupInputWorld) =
       Inr (eActionStatusOK, Some [1], [1, 30], Some 30, 1, [30]) \<and>
   createMainExecutionData env0 planNothing groupInputWorld =
     createMainExecutionData env0 (\<lambda>root. if root = 30 then planNothing root else planWaiting root)
       groupInputWorld \<and>
   isGroupInput env0 (treeRootEffect (args0\<lparr>treeRootEffect := 11\<rparr>)) \<and>
   state (create env0 NoThrow (args0\<lparr>treeRootEffect := 11\<rparr>)) = eActionStatusFailed \<and>
   isGroupInput env0 (treeRootEffect (args0\<lparr>treeRootEffect := 12\<rparr>)) \<and>
   state (create env0 NoThrow (args0\<lparr>treeRootEffect := 12\<rparr>)) = eActionStatusFailed"
proof -
  let ?args = "args0\<lparr>treeRootEffect := 10\<rparr>"
  have g10: "isGroupInput env0 (treeRootEffect ?args)"
    by (simp add: env0_fields)
  have g11: "isGroupInput env0 (treeRootEffect (args0\<lparr>treeRootEffect := 11\<rparr>))"
    by (simp add: env0_fields)
  have g12: "isGroupInput env0 (treeRootEffect (args0\<lparr>treeRootEffect := 12\<rparr>))"
    by (simp add: env0_fields)
  have r: "render groupInputWorld = create env0 NoThrow ?args"
    by (simp add: groupInputWorld_def)
  have grp: "getGroup env0 (getNode env0 (treeRootEffect ?args)) = Some 20"
    by (simp add: env0_fields)
  have ri: "getRealInputForInput env0 20 (getNode env0 (treeRootEffect ?args)) = Some 30"
    by (simp add: env0_fields)
  note T = create_group_input_root[OF g10, of NoThrow groupInputWorld
         planNothing "\<lambda>root. if root = 30 then planNothing root else planWaiting root",
         unfolded grp ri option.case]
  note T2 = T[THEN conjunct2, THEN mp, OF conjI[OF refl r]]
  have agree: "\<forall>t v scale mip pl roi w'.
                 planNothing (getEffectInstance env0 30) t v scale mip pl roi w' =
                 (\<lambda>root. if root = 30 then planNothing root else planWaiting root)
                   (getEffectInstance env0 30) t v scale mip pl roi w'"
    by (simp add: env0_fields)
  have a1: "ctorArgs (create env0 NoThrow ?args) = Some (args0\<lparr>treeRootEffect := 30\<rparr>)"
    using T[THEN conjunct1] by (simp add: env0_fields)
  have a2: "state (create env0 NoThrow ?args) = eActionStatusOK"
    by (rule T2[THEN conjunct1])
  have a3: "createMainExecutionData env0 planNothing groupInputWorld =
             createMainExecutionData env0 (\<lambda>root. if root = 30 then planNothing root else planWaiting root)
               groupInputWorld"
    by (rule T2[THEN conjunct2, THEN conjunct2, THEN conjunct1, THEN mp, OF agree])
  have pre: "(getNumComponents env0 (plane ?args) = 0 \<longrightarrow>
                \<not> isFailureRetCode (fst (getLayersProducedAndNeeded_public env0
                    (createRenderClone env0 (getEffectInstance env0 30) (time ?args) (view ?args))
                    (time ?args) (view ?args)))) \<and>
             (isNull env0 (canonicalRoI ?args) \<longrightarrow>
                \<not> isFailureRetCode (fst (getRegionOfDefinition_public env0
                    (createRenderClone env0 (getEffectInstance env0 30) (time ?args) (view ?args))
                    (time ?args) (getCombinedScale env0 (mipMapLevel ?args) (proxyScale ?args))
                    (view ?args))))"
    by (simp add: env0_fields isFailureRetCode_def)
  from T2[THEN conjunct2, THEN conjunct2, THEN conjunct2, THEN mp, OF pre]
  obtain w1 where w1: "dependencyFreeRenders (exec w1) = Some []"
      "allRenderTasksToProcess (exec w1) = []"
    and q: "\<forall>Q. createMainExecutionData env0 Q groupInputWorld =
              (case Q (getEffectInstance env0 30) (time ?args) (view ?args)
                      (proxyScale ?args) (mipMapLevel ?args)
                      (execPlane (exec w1)) (execCanonicalRoI (exec w1)) w1 of
                 (stat, w2) \<Rightarrow>
                   if isFailureRetCode stat
                   then Inr (w2\<lparr>exec := (exec w2)\<lparr>status := stat\<rparr>\<rparr>)
                   else (case dependencyFreeRenders (exec w2) of
                           None \<Rightarrow> Inl NullPointerDereference
                         | Some ready \<Rightarrow>
                             Inr (w2\<lparr>exec := (exec w2)\<lparr>status :=
                               (if ready = [] then eActionStatusFailed else stat)\<rparr>\<rparr>)))"
    by blast
  have a4: "map_sum id (\<lambda>w. (status (exec w), dependencyFreeRenders (exec w), allRenderTasksToProcess (exec w),
                     execOutputRequest (exec w), remainingDepCount (requests w 30),
                     listeners (requests w 1)))
     (createMainExecutionData env0 planRootAndInput groupInputWorld) =
       Inr (eActionStatusOK, Some [1], [1, 30], Some 30, 1, [30])"
    unfolding q[rule_format]
    by (simp add: planRootAndInput_def addTaskToRender_def getNumDependencies_def w1
          stdset_insert_def fvr0_fields isFailureRetCode_def env0_fields Let_def)
  from create_group_input_root[OF g11, of NoThrow]
  have b: "state (create env0 NoThrow (args0\<lparr>treeRootEffect := 11\<rparr>)) = eActionStatusFailed"
    by (simp add: env0_fields)
  from create_group_input_root[OF g12, of NoThrow]
  have c: "state (create env0 NoThrow (args0\<lparr>treeRootEffect := 12\<rparr>)) = eActionStatusFailed"
    by (simp add: env0_fields)
  from g10 g11 g12 a1 a2 a3 a4 b c show ?thesis by (intro conjI)
qed







lemma createMainExecutionData_before_init:
  "isGroupInput env (treeRootEffect inArgs) \<Longrightarrow>
   (case getGroup env (getNode env (treeRootEffect inArgs)) of
      None \<Rightarrow> True
    | Some g \<Rightarrow> getRealInputForInput env g (getNode env (treeRootEffect inArgs)) = None) \<Longrightarrow>
   render w = create env thr inArgs \<Longrightarrow>
     createMainExecutionData env P w = Inl NullPointerDereference"
  by (auto simp: createMainExecutionData_def create_no_group create_no_real_input
        TreeRenderPrivate_ctor_def split: option.splits)



section \<open>Properties of an execution\<close>

lemma set_stdset_insert [simp]: "set (stdset_insert x xs) = insert x (set xs)"
  by (auto simp: stdset_insert_def set_insort_key)

lemma set_stdset_erase [simp]: "set (stdset_erase x xs) = set xs - {x}"
  by (auto simp: stdset_erase_def)

lemma removeDependencyLinkFromRequest_loop_fields:
  "removeDependencyLinkFromRequest_loop request ls w = Inr w' \<Longrightarrow>
     status (exec w') = status (exec w) \<and>
     allRenderTasksToProcess (exec w') = allRenderTasksToProcess (exec w) \<and>
     launchedRunnables (exec w') = launchedRunnables (exec w) \<and>
     render w' = render w \<and> threadPool w' = threadPool w \<and> notified w' = notified w"
  by (induction request ls w rule: removeDependencyLinkFromRequest_loop.induct)
     (auto simp: markDependencyAsRendered_def Let_def split: option.splits if_splits)

lemma removeDependencyLinkFromRequest_fields:
  "removeDependencyLinkFromRequest request w = Inr w' \<Longrightarrow>
     status (exec w') = status (exec w) \<and>
     allRenderTasksToProcess (exec w') = allRenderTasksToProcess (exec w) \<and>
     launchedRunnables (exec w') = launchedRunnables (exec w) \<and>
     render w' = render w \<and> threadPool w' = threadPool w \<and> notified w' = notified w"
  by (auto simp: removeDependencyLinkFromRequest_def dest: removeDependencyLinkFromRequest_loop_fields
      split: if_splits)

text \<open>\<open>onTaskFinished\<close> as the sequence of its steps.\<close>

lemma onTaskFinished_Inr:
  assumes "onTaskFinished env request st w = Inr w'"
  obtains w3 w4 r where
    "w3 = removeTaskFromGlobalTaskList request
            (if isFailureRetCode st
             then (clearRenderedDependencies request w)
                    \<lparr>exec := (exec (clearRenderedDependencies request w))\<lparr>status := st\<rparr>\<rparr>
             else clearRenderedDependencies request w)"
    "removeDependencyLinkFromRequest request w3 = Inr w4"
    "setResults env (Some request) (status (exec w4)) (render w4) = Inr r"
    "w' = w4\<lparr>render := r, notified := Suc (notified w4)\<rparr>"
  using assms unfolding onTaskFinished_def Let_def
  by (auto split: sum.splits)

lemma onTaskFinished_status:
  assumes "onTaskFinished env request st w = Inr w'"
  shows "status (exec w') = (if isFailureRetCode st then st else status (exec w))"
proof -
  from assms obtain w3 w4 r where
    w3: "w3 = removeTaskFromGlobalTaskList request
            (if isFailureRetCode st
             then (clearRenderedDependencies request w)
                    \<lparr>exec := (exec (clearRenderedDependencies request w))\<lparr>status := st\<rparr>\<rparr>
             else clearRenderedDependencies request w)"
    and w4: "removeDependencyLinkFromRequest request w3 = Inr w4"
    and w': "w' = w4\<lparr>render := r, notified := Suc (notified w4)\<rparr>"
    by (rule onTaskFinished_Inr)
  have "status (exec w3) = (if isFailureRetCode st then st else status (exec w))"
    by (simp add: w3 removeTaskFromGlobalTaskList_def clearRenderedDependencies_def)
  with removeDependencyLinkFromRequest_fields[OF w4] w' show ?thesis by simp
qed

lemma onTaskFinished_render_state:
  assumes "onTaskFinished env request st w = Inr w'"
  shows "state (render w') =
           (if isFailureRetCode (status (exec w')) then status (exec w') else state (render w))"
proof -
  from assms obtain w3 w4 r where
    w3: "w3 = removeTaskFromGlobalTaskList request
            (if isFailureRetCode st
             then (clearRenderedDependencies request w)
                    \<lparr>exec := (exec (clearRenderedDependencies request w))\<lparr>status := st\<rparr>\<rparr>
             else clearRenderedDependencies request w)"
    and w4: "removeDependencyLinkFromRequest request w3 = Inr w4"
    and r: "setResults env (Some request) (status (exec w4)) (render w4) = Inr r"
    and w': "w' = w4\<lparr>render := r, notified := Suc (notified w4)\<rparr>"
    by (rule onTaskFinished_Inr)
  have "render w3 = render w"
    by (simp add: w3 removeTaskFromGlobalTaskList_def clearRenderedDependencies_def)
  with removeDependencyLinkFromRequest_fields[OF w4] setResults_state[OF r] w' show ?thesis by simp
qed

lemma onTaskFinished_failed_ready:
  assumes "onTaskFinished env request st w = Inr w'"
      and "isFailureRetCode (status (exec w)) \<or> isFailureRetCode st"
  shows "dependencyFreeRenders (exec w') = dependencyFreeRenders (exec w)"
proof -
  from assms(1) obtain w3 w4 r where
    w3: "w3 = removeTaskFromGlobalTaskList request
            (if isFailureRetCode st
             then (clearRenderedDependencies request w)
                    \<lparr>exec := (exec (clearRenderedDependencies request w))\<lparr>status := st\<rparr>\<rparr>
             else clearRenderedDependencies request w)"
    and w4: "removeDependencyLinkFromRequest request w3 = Inr w4"
    and w': "w' = w4\<lparr>render := r, notified := Suc (notified w4)\<rparr>"
    by (rule onTaskFinished_Inr)
  have f: "isFailureRetCode (status (exec w3))" and d: "dependencyFreeRenders (exec w3) = dependencyFreeRenders (exec w)"
    using assms(2)
    by (auto simp add: w3 removeTaskFromGlobalTaskList_def clearRenderedDependencies_def)
  from w4 f have "w4 = w3" by (simp add: removeDependencyLinkFromRequest_def)
  with d w' show ?thesis by simp
qed

lemma onTasksFinished_status:
  "onTasksFinished env cs w = Inr w' \<Longrightarrow>
     status (exec w') =
       (if filter isFailureRetCode (map snd cs) = [] then status (exec w)
        else last (filter isFailureRetCode (map snd cs)))"
proof (induction cs arbitrary: w)
  case Nil
  then show ?case by simp
next
  case (Cons c cs)
  obtain request st where c: "c = (request, st)" by (cases c)
  from Cons.prems c obtain w1 where w1: "onTaskFinished env request st w = Inr w1"
    and rest: "onTasksFinished env cs w1 = Inr w'"
    by (auto split: sum.splits)
  from Cons.IH[OF rest] onTaskFinished_status[OF w1] c show ?case by auto
qed

lemma onTasksFinished_sticky:
  "onTasksFinished env cs w = Inr w' \<Longrightarrow> isFailureRetCode (status (exec w)) \<Longrightarrow>
     isFailureRetCode (status (exec w')) \<and>
     dependencyFreeRenders (exec w') = dependencyFreeRenders (exec w)"
proof (induction cs arbitrary: w)
  case Nil
  then show ?case by simp
next
  case (Cons c cs)
  obtain request st where c: "c = (request, st)" by (cases c)
  from Cons.prems c obtain w1 where w1: "onTaskFinished env request st w = Inr w1"
    and rest: "onTasksFinished env cs w1 = Inr w'"
    by (auto split: sum.splits)
  have f1: "isFailureRetCode (status (exec w1))"
    using onTaskFinished_status[OF w1] Cons.prems(2) by auto
  from Cons.IH[OF rest f1] onTaskFinished_failed_ready[OF w1] Cons.prems(2)
  show ?case by simp
qed

lemma onTasksFinished_render_state:
  "onTasksFinished env cs w = Inr w' \<Longrightarrow> cs \<noteq> [] \<Longrightarrow> isFailureRetCode (status (exec w')) \<Longrightarrow>
     state (render w') = status (exec w')"
proof (induction cs arbitrary: w)
  case Nil
  then show ?case by simp
next
  case (Cons c cs)
  obtain request st where c: "c = (request, st)" by (cases c)
  from Cons.prems c obtain w1 where w1: "onTaskFinished env request st w = Inr w1"
    and rest: "onTasksFinished env cs w1 = Inr w'"
    by (auto split: sum.splits)
  show ?case
  proof (cases "cs = []")
    case True
    with rest have "w' = w1" by simp
    with onTaskFinished_render_state[OF w1] Cons.prems(3) show ?thesis by simp
  next
    case False
    from Cons.IH[OF rest False Cons.prems(3)] show ?thesis .
  qed
qed

text \<open>
  C4, amended: after any sequence of task completions, the status of the execution is
  the status of the last completion that failed, and the status it had before when no
  completion failed. So a failure is sticky (once the status is a failure it stays a
  failure, and a later success does not overwrite it), but a later failing completion
  does overwrite the code of an earlier one. After a failing completion the state of
  the tree render is the status of the execution.
\<close>

theorem onTaskFinished_last_failure_wins:
  assumes "onTasksFinished env cs w = Inr w'"
  shows "status (exec w') =
           (if filter isFailureRetCode (map snd cs) = [] then status (exec w)
            else last (filter isFailureRetCode (map snd cs))) \<and>
         (isFailureRetCode (status (exec w)) \<longrightarrow> isFailureRetCode (status (exec w'))) \<and>
         (filter isFailureRetCode (map snd cs) \<noteq> [] \<longrightarrow>
            isFailureRetCode (status (exec w')) \<and> state (render w') = status (exec w'))"
proof -
  have a: "status (exec w') =
           (if filter isFailureRetCode (map snd cs) = [] then status (exec w)
            else last (filter isFailureRetCode (map snd cs)))"
    using assms by (rule onTasksFinished_status)
  have b: "isFailureRetCode (status (exec w)) \<longrightarrow> isFailureRetCode (status (exec w'))"
    using onTasksFinished_sticky[OF assms] by blast
  have c: "isFailureRetCode (status (exec w')) \<and> state (render w') = status (exec w')"
    if ne: "filter isFailureRetCode (map snd cs) \<noteq> []"
  proof -
    from ne have "last (filter isFailureRetCode (map snd cs)) \<in> set (filter isFailureRetCode (map snd cs))"
      by (rule last_in_set)
    then have f: "isFailureRetCode (status (exec w'))" using a ne by simp
    from ne have "cs \<noteq> []" by auto
    from onTasksFinished_render_state[OF assms this f] f show ?thesis by simp
  qed
  from a b c show ?thesis by blast
qed

lemma removeDependencyLinkFromRequest_loop_no_fault:
  "dependencyFreeRenders (exec w) \<noteq> None \<Longrightarrow>
     \<exists>w'. removeDependencyLinkFromRequest_loop request ls w = Inr w' \<and>
          dependencyFreeRenders (exec w') \<noteq> None"
proof (induction request ls w rule: removeDependencyLinkFromRequest_loop.induct)
  case (1 request w)
  then show ?case by simp
next
  case (2 request l ls w)
  obtain n w1 where m: "markDependencyAsRendered l request w = (n, w1)"
    by (cases "markDependencyAsRendered l request w")
  then have e1: "exec w1 = exec w"
    by (auto simp: markDependencyAsRendered_def Let_def)
  with "2.prems" obtain ready where ready: "dependencyFreeRenders (exec w1) = Some ready"
    by auto
  show ?case
  proof (cases "n = 0")
    case True
    show ?thesis
    proof (cases "l \<in> set ready")
      case True
      from "2.IH"(2)[OF m[symmetric] refl \<open>n = 0\<close> ready] True ready m \<open>n = 0\<close>
      show ?thesis by simp
    next
      case False
      from "2.IH"(1)[OF m[symmetric] refl \<open>n = 0\<close> ready False] False ready m \<open>n = 0\<close>
      show ?thesis by simp
    qed
  next
    case False
    from "2.IH"(3)[OF m[symmetric] refl False] ready m False
    show ?thesis by simp
  qed
qed

lemma setResults_no_fault:
  "ctorArgs r \<noteq> None \<Longrightarrow> \<exists>r'. setResults env fvr st r = Inr r' \<and> ctorArgs r' = ctorArgs r"
  by (cases fvr) (auto simp: setResults_None setResults_Some)

lemma onTaskFinished_no_fault:
  assumes "dependencyFreeRenders (exec w) \<noteq> None" and "ctorArgs (render w) \<noteq> None"
  shows "\<exists>w'. onTaskFinished env request st w = Inr w' \<and>
              dependencyFreeRenders (exec w') \<noteq> None \<and> ctorArgs (render w') \<noteq> None"
proof -
  define w3 where "w3 = removeTaskFromGlobalTaskList request
            (if isFailureRetCode st
             then (clearRenderedDependencies request w)
                    \<lparr>exec := (exec (clearRenderedDependencies request w))\<lparr>status := st\<rparr>\<rparr>
             else clearRenderedDependencies request w)"
  have d3: "dependencyFreeRenders (exec w3) \<noteq> None" and r3: "render w3 = render w"
    using assms(1)
    by (auto simp: w3_def removeTaskFromGlobalTaskList_def clearRenderedDependencies_def)
  have "\<exists>w4. removeDependencyLinkFromRequest request w3 = Inr w4 \<and> dependencyFreeRenders (exec w4) \<noteq> None"
    using removeDependencyLinkFromRequest_loop_no_fault[OF d3] d3
    by (simp add: removeDependencyLinkFromRequest_def)
  then obtain w4 where w4: "removeDependencyLinkFromRequest request w3 = Inr w4"
    and d4: "dependencyFreeRenders (exec w4) \<noteq> None" by blast
  from removeDependencyLinkFromRequest_fields[OF w4] r3 assms(2)
  have "ctorArgs (render w4) \<noteq> None" by simp
  then have "\<exists>r. setResults env (Some request) (status (exec w4)) (render w4) = Inr r \<and>
               ctorArgs r \<noteq> None"
    using setResults_no_fault[of "render w4" env "Some request" "status (exec w4)"] by auto
  then obtain r where r: "setResults env (Some request) (status (exec w4)) (render w4) = Inr r"
    and ar: "ctorArgs r \<noteq> None" by blast
  have "onTaskFinished env request st w = Inr (w4\<lparr>render := r, notified := Suc (notified w4)\<rparr>)"
    using w4 r unfolding onTaskFinished_def Let_def w3_def by simp
  with d4 ar show ?thesis by simp
qed

lemma onTasksFinished_no_fault:
  "dependencyFreeRenders (exec w) \<noteq> None \<Longrightarrow> ctorArgs (render w) \<noteq> None \<Longrightarrow>
     \<exists>w'. onTasksFinished env cs w = Inr w'"
proof (induction cs arbitrary: w)
  case Nil
  then show ?case by simp
next
  case (Cons c cs)
  obtain request st where c: "c = (request, st)" by (cases c)
  from onTaskFinished_no_fault[OF Cons.prems, of env request st]
  obtain w1 where w1: "onTaskFinished env request st w = Inr w1"
    and d: "dependencyFreeRenders (exec w1) \<noteq> None" and a: "ctorArgs (render w1) \<noteq> None"
    by blast
  from Cons.IH[OF d a] w1 c show ?case by simp
qed

lemma envFailing_fields:
  "getNode envFailing e = e mod 100"
  "getEffect envFailing p = 100 + p mod 100"
  "launchNodeRender envFailing p =
     (if p = 1 then eActionStatusFailed else if p = 2 then eActionStatusAborted else eActionStatusOK)"
  by (simp_all add: envFailing_def env0_fields)

lemma twoReady_fields:
  "dependencyFreeRenders (exec twoReady) = Some [1, 2]"
  "allRenderTasksToProcess (exec twoReady) = [1, 2, 4]"
  "status (exec twoReady) = eActionStatusOK"
  "launchedRunnables (exec twoReady) = []"
  "ctorArgs (render twoReady) = Some args0"
  "state (render twoReady) = eActionStatusOK"
  "extraRequestedResults (render twoReady) = [2 \<mapsto> None]"
  "requests twoReady = forkRequests"
  "threadPool twoReady = []"
  "notified twoReady = 0"
  "forkRequests 1 = fvr0 0 [4]"
  "forkRequests (Suc 0) = fvr0 0 [4]"
  "forkRequests 2 = fvr0 0 [4]"
  "forkRequests 4 = fvr0 2 []"
  by (simp_all add: twoReady_def TreeRenderExecutionDataPrivate_ctor_def create_env0_args0
        forkRequests_def)

lemma executeAvailableTasks_one:
  "executeAvailableTasks env False 1 twoReady =
     Some (Inr (1, twoReady\<lparr>exec := (exec twoReady)\<lparr>dependencyFreeRenders := Some [2],
                                   launchedRunnables := [1]\<rparr>,
                            threadPool := [1]\<rparr>))"
  by (simp add: executeAvailableTasks_def executeAvailableTasks_loop.simps twoReady_fields
        fvr0_fields isFailureRetCode_def)

lemma executeAvailableTasks_two:
  "executeAvailableTasks env False 2 twoReady =
     Some (Inr (2, twoReady\<lparr>exec := (exec twoReady)\<lparr>dependencyFreeRenders := Some [],
                                   launchedRunnables := [1, 2]\<rparr>,
                            threadPool := [1, 2]\<rparr>))"
  by (simp add: executeAvailableTasks_def executeAvailableTasks_loop.simps twoReady_fields
        fvr0_fields isFailureRetCode_def)


lemma bothDispatched_eq:
  "bothDispatched = twoReady\<lparr>exec := (exec twoReady)\<lparr>dependencyFreeRenders := Some [],
                                   launchedRunnables := [1, 2]\<rparr>,
                            threadPool := [1, 2]\<rparr>"
  by (simp add: bothDispatched_def executeAvailableTasks_two)


text \<open>
  C4, as stated: the requests 1 and 2 of the fork have both been handed to the thread
  pool. Request 1 completes with the status Failed and the execution takes it; request
  2 then completes with the status Aborted, and the status of the execution is Aborted,
  not the first failure.
\<close>

theorem onTaskFinished_first_failure_counterexample:
  "\<not> isl (onTasksFinished env0 [(1, eActionStatusFailed), (2, eActionStatusAborted)] bothDispatched) \<and>
   status (exec (projr (onTasksFinished env0 [(1, eActionStatusFailed)] bothDispatched)))
     = eActionStatusFailed \<and>
   status (exec (projr (onTasksFinished env0 [(1, eActionStatusFailed), (2, eActionStatusAborted)]
                          bothDispatched)))
     = eActionStatusAborted"
proof -
  have d: "dependencyFreeRenders (exec bothDispatched) \<noteq> None"
    and a: "ctorArgs (render bothDispatched) \<noteq> None"
    by (simp_all add: bothDispatched_eq twoReady_fields)
  from onTasksFinished_no_fault[OF d a, of env0 "[(1, eActionStatusFailed)]"]
  obtain w1 where w1: "onTasksFinished env0 [(1, eActionStatusFailed)] bothDispatched = Inr w1"
    by blast
  from onTasksFinished_no_fault[OF d a, of env0 "[(1, eActionStatusFailed), (2, eActionStatusAborted)]"]
  obtain w2 where w2: "onTasksFinished env0 [(1, eActionStatusFailed), (2, eActionStatusAborted)]
                         bothDispatched = Inr w2"
    by blast
  from onTasksFinished_status[OF w1] onTasksFinished_status[OF w2]
  show ?thesis unfolding w1 w2 by (simp add: isFailureRetCode_def)
qed

theorem onTaskFinished_last_failure_wins_witness:
  "\<not> isl (onTasksFinished env0
            [(1, eActionStatusFailed), (2, eActionStatusOK)] bothDispatched) \<and>
   status (exec (projr (onTasksFinished env0
            [(1, eActionStatusFailed), (2, eActionStatusOK)] bothDispatched))) = eActionStatusFailed \<and>
   state (render (projr (onTasksFinished env0
            [(1, eActionStatusFailed), (2, eActionStatusOK)] bothDispatched))) = eActionStatusFailed"
proof -
  have d: "dependencyFreeRenders (exec bothDispatched) \<noteq> None"
    and a: "ctorArgs (render bothDispatched) \<noteq> None"
    by (simp_all add: bothDispatched_eq twoReady_fields)
  from onTasksFinished_no_fault[OF d a, of env0 "[(1, eActionStatusFailed), (2, eActionStatusOK)]"]
  obtain w2 where w2: "onTasksFinished env0 [(1, eActionStatusFailed), (2, eActionStatusOK)]
                         bothDispatched = Inr w2"
    by blast
  from onTaskFinished_last_failure_wins[OF w2]
  show ?thesis unfolding w2 by (simp add: isFailureRetCode_def)
qed

lemma onTaskFinished_fields:
  assumes "onTaskFinished env request st w = Inr w'"
  shows "threadPool w' = threadPool w \<and> launchedRunnables (exec w') = launchedRunnables (exec w) \<and>
         notified w' = Suc (notified w)"
proof -
  from assms obtain w3 w4 r where
    w3: "w3 = removeTaskFromGlobalTaskList request
            (if isFailureRetCode st
             then (clearRenderedDependencies request w)
                    \<lparr>exec := (exec (clearRenderedDependencies request w))\<lparr>status := st\<rparr>\<rparr>
             else clearRenderedDependencies request w)"
    and w4: "removeDependencyLinkFromRequest request w3 = Inr w4"
    and w': "w' = w4\<lparr>render := r, notified := Suc (notified w4)\<rparr>"
    by (rule onTaskFinished_Inr)
  have "threadPool w3 = threadPool w \<and> launchedRunnables (exec w3) = launchedRunnables (exec w) \<and>
        notified w3 = notified w"
    by (simp add: w3 removeTaskFromGlobalTaskList_def clearRenderedDependencies_def)
  with removeDependencyLinkFromRequest_fields[OF w4] w' show ?thesis by simp
qed

lemma run_failed:
  "isFailureRetCode (status (exec w)) \<Longrightarrow>
     run env request w = onTaskFinished env request (status (exec w)) w"
  by (simp add: run_def getStatus_def Let_def)

lemma run_fields:
  "run env request w = Inr w' \<Longrightarrow>
     threadPool w' = threadPool w \<and> launchedRunnables (exec w') = launchedRunnables (exec w) \<and>
     notified w' = Suc (notified w)"
  unfolding run_def Let_def by (rule onTaskFinished_fields)

lemma run_failed_keeps:
  assumes f: "isFailureRetCode (status (exec w))" and r: "run env request w = Inr w'"
  shows "isFailureRetCode (status (exec w')) \<and>
         dependencyFreeRenders (exec w') = dependencyFreeRenders (exec w)"
proof -
  from r f have o: "onTaskFinished env request (status (exec w)) w = Inr w'"
    by (simp add: run_failed)
  from onTaskFinished_status[OF o] onTaskFinished_failed_ready[OF o] f show ?thesis by simp
qed

text \<open>
  On an execution whose status is a failure the loop runs every ready request at
  once, in both builds, and ends after as many rounds as there are ready requests.
\<close>

lemma executeAvailableTasks_loop_failed:
  "isFailureRetCode (status (exec w)) \<Longrightarrow> dependencyFreeRenders (exec w) = Some ready \<Longrightarrow>
     executeAvailableTasks_loop env True n s w = executeAvailableTasks_loop env False n s w \<and>
     (\<exists>res. executeAvailableTasks_loop env False n s w = Some res \<and>
        (\<forall>k w'. res = Inr (k, w') \<longrightarrow>
           k = s \<and> threadPool w' = threadPool w \<and>
           launchedRunnables (exec w') = launchedRunnables (exec w) \<and>
           isFailureRetCode (status (exec w')) \<and>
           (n = - 1 \<or> 0 < n \<longrightarrow> dependencyFreeRenders (exec w') = Some [])))"
proof (induction ready arbitrary: w)
  case Nil
  then show ?case
    by (simp add: executeAvailableTasks_loop.simps)
next
  case (Cons request ready)
  let ?w1 = "w\<lparr>exec := (exec w)\<lparr>dependencyFreeRenders := Some ready\<rparr>\<rparr>"
  have f1: "isFailureRetCode (status (exec ?w1))" and d1: "dependencyFreeRenders (exec ?w1) = Some ready"
    using Cons.prems by simp_all
  show ?case
  proof (cases "n = - 1 \<or> 0 < n")
    case False
    with Cons.prems show ?thesis
      by (simp add: executeAvailableTasks_loop.simps)
  next
    case go: True
    show ?thesis
    proof (cases "run env request ?w1")
      case (Inl f)
      with Cons.prems go show ?thesis
        by (simp add: executeAvailableTasks_loop.simps[of env _ n s w] Let_def)
    next
      case (Inr w2)
      from run_failed_keeps[OF f1 Inr] d1
      have f2: "isFailureRetCode (status (exec w2))" and d2: "dependencyFreeRenders (exec w2) = Some ready"
        by simp_all
      from run_fields[OF Inr]
      have p2: "threadPool w2 = threadPool w" "launchedRunnables (exec w2) = launchedRunnables (exec w)"
        by simp_all
      have step: "executeAvailableTasks_loop env b n s w = executeAvailableTasks_loop env b n s w2" for b
        using Cons.prems go Inr
        by (simp add: executeAvailableTasks_loop.simps[of env b n s w] Let_def)
      from Cons.IH[OF f2 d2] p2 show ?thesis
        by (simp add: step)
    qed
  qed
qed

text \<open>
  On an execution whose status is a failure a runnable does not read the ready set, and
  the loop is the run of the ready requests, one after the other.
\<close>

lemma run_failed_ready:
  "isFailureRetCode (status (exec w)) \<Longrightarrow>
     run env request (w\<lparr>exec := (exec w)\<lparr>dependencyFreeRenders := x\<rparr>\<rparr>) =
       map_sum id (\<lambda>w'. w'\<lparr>exec := (exec w')\<lparr>dependencyFreeRenders := x\<rparr>\<rparr>) (run env request w)"
  by (simp add: run_def onTaskFinished_def getStatus_def clearRenderedDependencies_def
        removeTaskFromGlobalTaskList_def removeDependencyLinkFromRequest_def Let_def
      split: sum.splits)

lemma executeAvailableTasks_loop_failed_runs:
  "isFailureRetCode (status (exec w)) \<Longrightarrow> dependencyFreeRenders (exec w) = Some ready \<Longrightarrow>
   n = - 1 \<or> 0 < n \<Longrightarrow>
     executeAvailableTasks_loop env False n s w =
       Some (map_sum id (Pair s) (runs env ready (w\<lparr>exec := (exec w)\<lparr>dependencyFreeRenders := Some []\<rparr>\<rparr>)))"
proof (induction ready arbitrary: w)
  case Nil
  then have "w\<lparr>exec := (exec w)\<lparr>dependencyFreeRenders := Some []\<rparr>\<rparr> = w" by simp
  with Nil show ?case
    by (subst executeAvailableTasks_loop.simps) simp
next
  case (Cons request ready)
  let ?w1 = "w\<lparr>exec := (exec w)\<lparr>dependencyFreeRenders := Some ready\<rparr>\<rparr>"
  let ?w0 = "w\<lparr>exec := (exec w)\<lparr>dependencyFreeRenders := Some []\<rparr>\<rparr>"
  have f1: "isFailureRetCode (status (exec ?w1))" and d1: "dependencyFreeRenders (exec ?w1) = Some ready"
    using Cons.prems by simp_all
  have w0: "?w0 = ?w1\<lparr>exec := (exec ?w1)\<lparr>dependencyFreeRenders := Some []\<rparr>\<rparr>" by simp
  have r0: "run env request ?w0 =
              map_sum id (\<lambda>w'. w'\<lparr>exec := (exec w')\<lparr>dependencyFreeRenders := Some []\<rparr>\<rparr>) (run env request ?w1)"
    unfolding w0 by (rule run_failed_ready[OF f1])
  show ?case
  proof (cases "run env request ?w1")
    case (Inl f)
    with Cons.prems r0 show ?thesis
      by (subst executeAvailableTasks_loop.simps) (simp add: Let_def)
  next
    case (Inr w2)
    from run_failed_keeps[OF f1 Inr] d1
    have f2: "isFailureRetCode (status (exec w2))" and d2: "dependencyFreeRenders (exec w2) = Some ready"
      by simp_all
    have step: "executeAvailableTasks_loop env False n s w = executeAvailableTasks_loop env False n s w2"
      using Cons.prems Inr
      by (subst executeAvailableTasks_loop.simps) (simp add: Let_def)
    have "runs env (request # ready) ?w0 =
            runs env ready (w2\<lparr>exec := (exec w2)\<lparr>dependencyFreeRenders := Some []\<rparr>\<rparr>)"
      by (simp add: r0 Inr)
    with Cons.IH[OF f2 d2 Cons.prems(3)] step show ?thesis by simp
  qed
qed









lemma executeAvailableTasks_failed:
  assumes f: "isFailureRetCode (status (exec w))"
  shows "executeAvailableTasks env True n w = executeAvailableTasks env False n w \<and>
         (\<exists>res. executeAvailableTasks env False n w = Some res \<and>
            (\<forall>k w'. res = Inr (k, w') \<longrightarrow>
               k = 0 \<and> threadPool w' = threadPool w \<and>
               launchedRunnables (exec w') = launchedRunnables (exec w) \<and>
               isFailureRetCode (status (exec w')) \<and>
               ((n = - 1 \<or> 0 < n) \<and> dependencyFreeRenders (exec w) \<noteq> None
                  \<longrightarrow> dependencyFreeRenders (exec w') = Some [])))"
proof (cases "dependencyFreeRenders (exec w)")
  case None
  with f show ?thesis by (simp add: executeAvailableTasks_def)
next
  case (Some ready)
  from executeAvailableTasks_loop_failed[OF f Some, of env n 0] Some
  show ?thesis by (simp add: executeAvailableTasks_def)
qed










text \<open>
  C2: with \<open>nTasks = -1\<close> on the fork, whose ready requests 1 and 2 are both not
  rendered and whose status is OK, the multithreaded \<open>executeAvailableTasks\<close> hands
  request 1 to the thread pool, decrements the remaining count from \<open>-1\<close> to \<open>-2\<close>,
  leaves the loop and returns 1: request 2 stays in the ready set.
\<close>

theorem executeAvailableTasks_all_dispatches_one:
  "executeAvailableTasks env0 False (- 1) twoReady =
     Some (Inr (1, twoReady\<lparr>exec := (exec twoReady)\<lparr>dependencyFreeRenders := Some [2],
                                   launchedRunnables := [1]\<rparr>,
                            threadPool := [1]\<rparr>))"
  by (simp add: executeAvailableTasks_def executeAvailableTasks_loop.simps twoReady_fields
        fvr0_fields isFailureRetCode_def)



lemma diamond_fields:
  "dependencyFreeRenders (exec diamond) = Some [1]"
  "allRenderTasksToProcess (exec diamond) = [1, 2, 3, 4]"
  "status (exec diamond) = eActionStatusOK"
  "launchedRunnables (exec diamond) = []"
  "ctorArgs (render diamond) = Some args0"
  "state (render diamond) = eActionStatusOK"
  "extraRequestedResults (render diamond) = [2 \<mapsto> None]"
  "requests diamond = diamondRequests"
  "threadPool diamond = []"
  "notified diamond = 0"
  by (simp_all add: diamond_def TreeRenderExecutionDataPrivate_ctor_def create_env0_args0)

lemma diamondRequests_simps:
  "diamondRequests 1 = fvr0 0 [2, 3]"
  "diamondRequests (Suc 0) = fvr0 0 [2, 3]"
  "diamondRequests 2 = fvr0 1 [4]"
  "diamondRequests 3 = fvr0 1 [4]"
  "diamondRequests 4 = fvr0 2 []"
  by (simp_all add: diamondRequests_def)






text \<open>
  C3, as stated: of the two ready requests of the fork, request 1 is handed to the
  thread pool and its render fails. The status of the execution is then Failed, and
  request 2 is still in the ready set.
\<close>

theorem failed_execution_ready_counterexample:
  "map_option (map_sum id fst) (executeAvailableTasks envFailing False 1 twoReady) = Some (Inr 1) \<and>
   map_sum id (\<lambda>w. (status (exec w), dependencyFreeRenders (exec w)))
     (poolRun envFailing 0 (snd (projr (the (executeAvailableTasks envFailing False 1 twoReady)))))
     = Inr (eActionStatusFailed, Some [2])"
  by (simp add: executeAvailableTasks_one poolRun_def run_def onTaskFinished_def getStatus_def
        clearRenderedDependencies_def removeTaskFromGlobalTaskList_def
        removeDependencyLinkFromRequest_def setResults_Some twoReady_fields fvr0_fields
        isFailureRetCode_def envFailing_fields args0_fields Let_def stdset_erase_def)

text \<open>
  C3, amended: a task that completes with a failure status promotes no listener and
  makes the status of the execution that failure. While the status of an execution is
  a failure, no sequence of task completions changes its ready set, and its status
  stays a failure. The ready set need not be empty then; the next
  \<open>executeAvailableTasks\<close> (with \<open>nTasks = -1\<close> or \<open>nTasks > 0\<close>) returns 0,
  hands nothing to the thread pool and leaves the ready set empty: what it does is to
  run the runnable of each ready request at once, in the order of the ready set.
\<close>

theorem failed_execution_promotes_nothing:
  "(isFailureRetCode st \<and> onTaskFinished env request st w = Inr w1 \<longrightarrow>
      status (exec w1) = st \<and> dependencyFreeRenders (exec w1) = dependencyFreeRenders (exec w)) \<and>
   (isFailureRetCode (status (exec w)) \<and> onTasksFinished env cs w = Inr w' \<longrightarrow>
      isFailureRetCode (status (exec w')) \<and>
      dependencyFreeRenders (exec w') = dependencyFreeRenders (exec w)) \<and>
   (isFailureRetCode (status (exec w)) \<longrightarrow>
      (\<exists>res. executeAvailableTasks env False n w = Some res \<and>
         (\<forall>k w''. res = Inr (k, w'') \<longrightarrow>
            k = 0 \<and> threadPool w'' = threadPool w \<and>
            isFailureRetCode (status (exec w'')) \<and>
            ((n = - 1 \<or> 0 < n) \<and> dependencyFreeRenders (exec w) \<noteq> None
               \<longrightarrow> dependencyFreeRenders (exec w'') = Some [])))) \<and>
   (isFailureRetCode (status (exec w)) \<and> dependencyFreeRenders (exec w) = Some ready \<and>
    (n = - 1 \<or> 0 < n) \<longrightarrow>
      executeAvailableTasks env False n w =
        Some (map_sum id (Pair 0)
               (runs env ready (w\<lparr>exec := (exec w)\<lparr>dependencyFreeRenders := Some []\<rparr>\<rparr>))))"
proof (intro conjI impI)
  assume a: "isFailureRetCode st \<and> onTaskFinished env request st w = Inr w1"
  then show "status (exec w1) = st"
    using onTaskFinished_status[of env request st w w1] by simp
  from a show "dependencyFreeRenders (exec w1) = dependencyFreeRenders (exec w)"
    using onTaskFinished_failed_ready[of env request st w w1] by simp
next
  assume b: "isFailureRetCode (status (exec w)) \<and> onTasksFinished env cs w = Inr w'"
  then show "isFailureRetCode (status (exec w'))"
    using onTasksFinished_sticky[of env cs w w'] by simp
  from b show "dependencyFreeRenders (exec w') = dependencyFreeRenders (exec w)"
    using onTasksFinished_sticky[of env cs w w'] by simp
next
  assume c: "isFailureRetCode (status (exec w))"
  from executeAvailableTasks_failed[OF c, of env n]
  show "\<exists>res. executeAvailableTasks env False n w = Some res \<and>
         (\<forall>k w''. res = Inr (k, w'') \<longrightarrow>
            k = 0 \<and> threadPool w'' = threadPool w \<and>
            isFailureRetCode (status (exec w'')) \<and>
            ((n = - 1 \<or> 0 < n) \<and> dependencyFreeRenders (exec w) \<noteq> None
               \<longrightarrow> dependencyFreeRenders (exec w'') = Some []))"
    by blast
next
  assume d: "isFailureRetCode (status (exec w)) \<and> dependencyFreeRenders (exec w) = Some ready \<and>
             (n = - 1 \<or> 0 < n)"
  then have f: "isFailureRetCode (status (exec w))" and r: "dependencyFreeRenders (exec w) = Some ready"
    and n: "n = - 1 \<or> 0 < n"
    by simp_all
  from executeAvailableTasks_loop_failed_runs[OF f r n, of env 0] r
  show "executeAvailableTasks env False n w =
        Some (map_sum id (Pair 0)
               (runs env ready (w\<lparr>exec := (exec w)\<lparr>dependencyFreeRenders := Some []\<rparr>\<rparr>)))"
    by (simp add: executeAvailableTasks_def)
qed

lemma threeReady_fields:
  "dependencyFreeRenders (exec threeReady) = Some [1, 2, 3]"
  "allRenderTasksToProcess (exec threeReady) = [1, 2, 3, 4]"
  "status (exec threeReady) = eActionStatusOK"
  "launchedRunnables (exec threeReady) = []"
  "ctorArgs (render threeReady) = Some args0"
  "state (render threeReady) = eActionStatusOK"
  "extraRequestedResults (render threeReady) = [2 \<mapsto> None]"
  "requests threeReady = fanRequests"
  "threadPool threeReady = []"
  "notified threeReady = 0"
  "fanRequests 1 = fvr0 0 [4]"
  "fanRequests (Suc 0) = fvr0 0 [4]"
  "fanRequests 2 = fvr0 0 [4]"
  "fanRequests 3 = fvr0 0 [4]"
  "fanRequests 4 = fvr0 3 []"
  by (simp_all add: threeReady_def TreeRenderExecutionDataPrivate_ctor_def create_env0_args0
        fanRequests_def)

lemma twoInFlight_eq:
  "twoInFlight = threeReady\<lparr>exec := (exec threeReady)\<lparr>dependencyFreeRenders := Some [3],
                                   launchedRunnables := [1, 2]\<rparr>,
                            threadPool := [1, 2]\<rparr>"
  by (simp add: twoInFlight_def executeAvailableTasks_def executeAvailableTasks_loop.simps
        threeReady_fields fvr0_fields isFailureRetCode_def)

lemma poolRun_twoInFlight:
  "poolRun envFailing 0 twoInFlight =
     onTaskFinished envFailing 1 eActionStatusFailed (twoInFlight\<lparr>threadPool := [2]\<rparr>)"
  by (simp add: poolRun_def twoInFlight_eq run_def getStatus_def threeReady_fields
        envFailing_fields isFailureRetCode_def)

lemma firstFailed_fields:
  "status (exec firstFailed) = eActionStatusFailed"
  "dependencyFreeRenders (exec firstFailed) = Some [3]"
  "allRenderTasksToProcess (exec firstFailed) = [2, 3, 4]"
  "launchedRunnables (exec firstFailed) = [1, 2]"
  "threadPool firstFailed = [2]"
  "notified firstFailed = 1"
  "ctorArgs (render firstFailed) = Some args0"
  "state (render firstFailed) = eActionStatusFailed"
  unfolding firstFailed_def poolRun_twoInFlight
  by (simp_all add: twoInFlight_eq onTaskFinished_def
        clearRenderedDependencies_def removeTaskFromGlobalTaskList_def
        removeDependencyLinkFromRequest_def setResults_Some threeReady_fields fvr0_fields
        isFailureRetCode_def envFailing_fields args0_fields Let_def stdset_erase_def)

lemma poolRun_firstFailed:
  "poolRun envFailing 0 firstFailed =
     onTasksFinished envFailing [(2, eActionStatusFailed)] (firstFailed\<lparr>threadPool := []\<rparr>)"
  by (simp add: poolRun_def firstFailed_fields run_def getStatus_def isFailureRetCode_def
      split: sum.splits)

lemma secondDone_fields:
  "status (exec secondDone) = eActionStatusFailed"
  "dependencyFreeRenders (exec secondDone) = Some [3]"
  "allRenderTasksToProcess (exec secondDone) = [3, 4]"
  "threadPool secondDone = []"
  "notified secondDone = 2"
  "ctorArgs (render secondDone) = Some args0"
  unfolding secondDone_def poolRun_firstFailed
  by (simp_all add: firstFailed_fields onTaskFinished_def
        clearRenderedDependencies_def removeTaskFromGlobalTaskList_def
        removeDependencyLinkFromRequest_def setResults_Some
        isFailureRetCode_def envFailing_fields args0_fields Let_def stdset_erase_def)

lemma runs_secondDone:
  "map_sum id (\<lambda>w. (dependencyFreeRenders (exec w), allRenderTasksToProcess (exec w), notified w))
     (runs envFailing [3]
        (secondDone\<lparr>exec := (exec secondDone)\<lparr>dependencyFreeRenders := Some []\<rparr>\<rparr>)) =
     Inr (Some [], [4], 3)"
  by (simp add: run_def getStatus_def secondDone_fields onTaskFinished_def
        clearRenderedDependencies_def removeTaskFromGlobalTaskList_def
        removeDependencyLinkFromRequest_def setResults_Some
        isFailureRetCode_def envFailing_fields args0_fields Let_def stdset_erase_def)

theorem failed_execution_promotes_nothing_witness:
  "isFailureRetCode eActionStatusFailed \<and>
   poolRun envFailing 0 twoInFlight = Inr firstFailed \<and>
   onTaskFinished envFailing 1 eActionStatusFailed (twoInFlight\<lparr>threadPool := [2]\<rparr>) = Inr firstFailed \<and>
   status (exec firstFailed) = eActionStatusFailed \<and>
   dependencyFreeRenders (exec twoInFlight) = Some [3] \<and>
   dependencyFreeRenders (exec firstFailed) = Some [3] \<and>
   threadPool firstFailed = [2] \<and>
   poolRun envFailing 0 firstFailed = Inr secondDone \<and>
   onTasksFinished envFailing [(2, eActionStatusFailed)] (firstFailed\<lparr>threadPool := []\<rparr>) = Inr secondDone \<and>
   isFailureRetCode (status (exec secondDone)) \<and>
   dependencyFreeRenders (exec secondDone) = Some [3] \<and>
   allRenderTasksToProcess (exec secondDone) = [3, 4] \<and>
   notified secondDone = 2 \<and>
   map_option (map_sum id
       (\<lambda>r. (fst r, dependencyFreeRenders (exec (snd r)), allRenderTasksToProcess (exec (snd r)),
             threadPool (snd r), notified (snd r))))
     (executeAvailableTasks envFailing False (- 1) secondDone) = Some (Inr (0, Some [], [4], [], 3))"
proof -
  let ?cs = "[(2 :: nat, eActionStatusFailed)]"
  let ?w = "twoInFlight\<lparr>threadPool := [2]\<rparr>"
  let ?v = "firstFailed\<lparr>threadPool := []\<rparr>"
  have f0: "isFailureRetCode eActionStatusFailed" by (simp add: isFailureRetCode_def)
  have d: "dependencyFreeRenders (exec ?w) \<noteq> None" and a: "ctorArgs (render ?w) \<noteq> None"
    and ro: "dependencyFreeRenders (exec twoInFlight) = Some [3]"
    by (simp_all add: twoInFlight_eq threeReady_fields)
  from onTaskFinished_no_fault[OF d a, of envFailing 1 eActionStatusFailed]
  obtain w1 where w1: "onTaskFinished envFailing 1 eActionStatusFailed ?w = Inr w1" by blast
  have p1: "poolRun envFailing 0 twoInFlight = Inr firstFailed"
    unfolding firstFailed_def poolRun_twoInFlight w1 by simp
  then have o1: "onTaskFinished envFailing 1 eActionStatusFailed ?w = Inr firstFailed"
    by (simp add: poolRun_twoInFlight)
  note A = failed_execution_promotes_nothing
             [where st = eActionStatusFailed and env = envFailing and request = 1 and w = ?w
                and ?w1.0 = firstFailed,
              THEN conjunct1, THEN mp, OF conjI[OF f0 o1]]
  have sf: "status (exec firstFailed) = eActionStatusFailed" by (rule A[THEN conjunct1])
  have rf: "dependencyFreeRenders (exec firstFailed) = Some [3]"
    using A[THEN conjunct2] ro by simp
  have tf: "threadPool firstFailed = [2]" by (simp add: firstFailed_fields)
  have fv: "isFailureRetCode (status (exec ?v))" using sf f0 by simp
  have d': "dependencyFreeRenders (exec ?v) \<noteq> None" and a': "ctorArgs (render ?v) \<noteq> None"
    by (simp_all add: firstFailed_fields)
  from onTasksFinished_no_fault[OF d' a', of envFailing ?cs]
  obtain w2 where w2: "onTasksFinished envFailing ?cs ?v = Inr w2" by blast
  have p2: "poolRun envFailing 0 firstFailed = Inr secondDone"
    unfolding secondDone_def poolRun_firstFailed w2 by simp
  then have o2: "onTasksFinished envFailing ?cs ?v = Inr secondDone"
    by (simp add: poolRun_firstFailed)
  note B = failed_execution_promotes_nothing
             [where env = envFailing and w = ?v and cs = ?cs and w' = secondDone,
              THEN conjunct2, THEN conjunct1, THEN mp, OF conjI[OF fv o2]]
  have fs: "isFailureRetCode (status (exec secondDone))" by (rule B[THEN conjunct1])
  have rs: "dependencyFreeRenders (exec secondDone) = Some [3]"
    using B[THEN conjunct2] rf by simp
  have n: "- 1 = (- 1 :: int) \<or> 0 < (- 1 :: int)" by simp
  note D = failed_execution_promotes_nothing
             [where env = envFailing and w = secondDone and n = "- 1" and ready = "[3]",
              THEN conjunct2, THEN conjunct2, THEN conjunct2, THEN mp, OF conjI[OF fs conjI[OF rs n]]]
  from failed_execution_promotes_nothing
             [where env = envFailing and w = secondDone and n = "- 1",
              THEN conjunct2, THEN conjunct2, THEN conjunct1, THEN mp, OF fs]
  obtain res where res: "executeAvailableTasks envFailing False (- 1) secondDone = Some res"
    and C: "\<forall>k w''. res = Inr (k, w'') \<longrightarrow>
            k = 0 \<and> threadPool w'' = threadPool secondDone \<and>
            isFailureRetCode (status (exec w'')) \<and>
            ((- 1 = (- 1 :: int) \<or> 0 < (- 1 :: int)) \<and> dependencyFreeRenders (exec secondDone) \<noteq> None
               \<longrightarrow> dependencyFreeRenders (exec w'') = Some [])"
    by blast
  from runs_secondDone obtain w3 where
    w3: "runs envFailing [3] (secondDone\<lparr>exec := (exec secondDone)\<lparr>dependencyFreeRenders := Some []\<rparr>\<rparr>) = Inr w3"
    and w3f: "allRenderTasksToProcess (exec w3) = [4]" "notified w3 = 3"
    by (cases "runs envFailing [3] (secondDone\<lparr>exec := (exec secondDone)\<lparr>dependencyFreeRenders := Some []\<rparr>\<rparr>)")
       simp_all
  from D w3 have e: "executeAvailableTasks envFailing False (- 1) secondDone = Some (Inr (0, w3))"
    by simp
  with res have r: "res = Inr (0, w3)" by simp
  from C[rule_format, OF r] rs
  have tp: "threadPool w3 = threadPool secondDone" and e3: "dependencyFreeRenders (exec w3) = Some []"
    by simp_all
  have last: "map_option (map_sum id
       (\<lambda>r. (fst r, dependencyFreeRenders (exec (snd r)), allRenderTasksToProcess (exec (snd r)),
             threadPool (snd r), notified (snd r))))
     (executeAvailableTasks envFailing False (- 1) secondDone) = Some (Inr (0, Some [], [4], [], 3))"
    by (simp add: e tp e3 w3f secondDone_fields)
  have s34: "allRenderTasksToProcess (exec secondDone) = [3, 4]" "notified secondDone = 2"
    by (simp_all add: secondDone_fields)
  from f0 p1 o1 sf ro rf tf p2 o2 fs rs s34 last show ?thesis by (intro conjI)
qed

section \<open>The ready set through the life of an execution\<close>

lemma distinct_stdset_insert: "distinct ready \<Longrightarrow> distinct (stdset_insert l ready)"
  by (simp add: stdset_insert_def distinct_insort)

lemma pendingListens_requests:
  "allRenderTasksToProcess (exec w') = allRenderTasksToProcess (exec w) \<Longrightarrow>
   (\<And>x. listeners (requests w' x) = listeners (requests w x)) \<Longrightarrow>
     pendingListens w' l = pendingListens w l"
  by (simp add: pendingListens_def)

lemma wellPlanned_readyInvariant: "wellPlanned w ls \<Longrightarrow> readyInvariant w"
  by (auto simp: wellPlanned_def readyInvariant_def split: option.splits)

text \<open>One round of the loop over the listeners keeps the plan well formed.\<close>

lemma markDependencyAsRendered_wellPlanned:
  assumes wp: "wellPlanned w (l # ls)"
      and m: "markDependencyAsRendered l request w = (n, w1)"
  shows "wellPlanned w1 ls \<and> exec w1 = exec w \<and> threadPool w1 = threadPool w \<and>
         n = getNumDependencies w1 l \<and> l \<in> set (allRenderTasksToProcess (exec w)) \<and>
         l \<notin> set (threadPool w) \<and>
         (\<forall>ready. dependencyFreeRenders (exec w) = Some ready \<longrightarrow> l \<notin> set ready)"
proof -
  from wp obtain ready where ready: "dependencyFreeRenders (exec w) = Some ready"
    by (auto simp: wellPlanned_def split: option.splits)
  note wp' = wp[unfolded wellPlanned_def ready option.case]
  from m have w1: "w1 = w\<lparr>requests := (requests w)(l := (requests w l)\<lparr>remainingDepCount := n\<rparr>)\<rparr>"
    and n: "n = getNumDependencies w l - 1"
    by (auto simp: markDependencyAsRendered_def Let_def getNumDependencies_def)
  have e1: "exec w1 = exec w" and p1: "threadPool w1 = threadPool w" by (simp_all add: w1)
  have lis: "\<And>x. listeners (requests w1 x) = listeners (requests w x)" by (simp add: w1)
  have pend: "\<And>k. pendingListens w1 k = pendingListens w k"
    by (rule pendingListens_requests) (simp_all add: e1 lis)
  have cnt: "\<And>k. getNumDependencies w1 k = (if k = l then n else getNumDependencies w k)"
    by (simp add: w1 getNumDependencies_def)
  from wp' have "int (count_list (l # ls) l) + int (pendingListens w l) \<le> getNumDependencies w l"
    by blast
  then have pos: "1 \<le> getNumDependencies w l" by simp
  have notready: "l \<notin> set ready" using wp' pos by auto
  have notpool: "l \<notin> set (threadPool w)" using wp' pos by auto
  have lall: "l \<in> set (allRenderTasksToProcess (exec w))" using wp' by simp
  have ineq: "int (count_list ls k) + int (pendingListens w1 k) \<le> getNumDependencies w1 k" for k
  proof -
    from wp' have "int (count_list (l # ls) k) + int (pendingListens w k) \<le> getNumDependencies w k"
      by blast
    then show ?thesis
      by (cases "k = l") (simp_all add: cnt pend n)
  qed
  have "wellPlanned w1 ls"
    unfolding wellPlanned_def e1 p1 ready option.case
    using wp' notready notpool ineq by (auto simp: cnt lis)
  with e1 p1 cnt lall notpool notready ready show ?thesis by simp
qed

lemma removeDependencyLinkFromRequest_loop_wellPlanned:
  "wellPlanned w ls \<Longrightarrow> removeDependencyLinkFromRequest_loop request ls w = Inr w' \<Longrightarrow>
     wellPlanned w' []"
proof (induction ls arbitrary: w)
  case Nil
  then show ?case by simp
next
  case (Cons l ls)
  obtain n w1 where m: "markDependencyAsRendered l request w = (n, w1)"
    by (cases "markDependencyAsRendered l request w")
  note step = markDependencyAsRendered_wellPlanned[OF Cons.prems(1) m]
  from step obtain ready where ready: "dependencyFreeRenders (exec w1) = Some ready"
    by (auto simp: wellPlanned_def split: option.splits)
  from step ready have notready: "l \<notin> set ready" by simp
  show ?case
  proof (cases "n = 0")
    case True
    let ?w2 = "w1\<lparr>exec := (exec w1)\<lparr>dependencyFreeRenders := Some (stdset_insert l ready)\<rparr>\<rparr>"
    from Cons.prems(2) m ready True notready
    have rest: "removeDependencyLinkFromRequest_loop request ls ?w2 = Inr w'" by simp
    from step have wp1: "wellPlanned w1 ls" by simp
    note wp1' = wp1[unfolded wellPlanned_def ready option.case]
    have pend: "\<And>k. pendingListens ?w2 k = pendingListens w1 k"
      by (rule pendingListens_requests) simp_all
    have cnt: "\<And>k. getNumDependencies ?w2 k = getNumDependencies w1 k"
      by (simp add: getNumDependencies_def)
    have l0: "getNumDependencies w1 l = 0" using step True by simp
    have lall: "l \<in> set (allRenderTasksToProcess (exec w1))" using step by simp
    have lpool: "l \<notin> set (threadPool w1)" using step by simp
    have "wellPlanned ?w2 ls"
      unfolding wellPlanned_def
      using wp1' l0 lall lpool
      by (auto simp: distinct_stdset_insert pend cnt)
    from Cons.IH[OF this rest] show ?thesis .
  next
    case False
    from Cons.prems(2) m False
    have rest: "removeDependencyLinkFromRequest_loop request ls w1 = Inr w'" by simp
    from step have "wellPlanned w1 ls" by simp
    from Cons.IH[OF this rest] show ?thesis .
  qed
qed

lemma wellPlanned_weaken: "wellPlanned w ls \<Longrightarrow> wellPlanned w []"
proof -
  assume wp: "wellPlanned w ls"
  then obtain ready where ready: "dependencyFreeRenders (exec w) = Some ready"
    by (auto simp: wellPlanned_def split: option.splits)
  note wp' = wp[unfolded wellPlanned_def ready option.case]
  have "int (pendingListens w l) \<le> getNumDependencies w l" for l
  proof -
    from wp' have "int (count_list ls l) + int (pendingListens w l) \<le> getNumDependencies w l"
      by blast
    then show ?thesis by simp
  qed
  with wp' show ?thesis
    unfolding wellPlanned_def ready option.case by simp
qed

lemma wellPlanned_fields_cong:
  assumes wp: "wellPlanned w ls" and e: "exec w' = exec w" and p: "threadPool w' = threadPool w"
      and lis: "\<And>x. listeners (requests w' x) = listeners (requests w x)"
      and cnt: "\<And>x. remainingDepCount (requests w' x) = remainingDepCount (requests w x)"
  shows "wellPlanned w' ls"
proof -
  have pend: "\<And>l. pendingListens w' l = pendingListens w l"
    by (rule pendingListens_requests) (simp_all add: e lis)
  have num: "\<And>x. getNumDependencies w' x = getNumDependencies w x"
    by (simp add: getNumDependencies_def cnt)
  from wp show ?thesis
    unfolding wellPlanned_def e p pend num lis .
qed

lemma count_list_le_pendingListens:
  "y \<in> set (allRenderTasksToProcess (exec w)) \<Longrightarrow>
     count_list (listeners (requests w y)) l \<le> pendingListens w l"
  unfolding pendingListens_def
  by (rule member_le_sum_list) auto

lemma pendingListens_remove:
  assumes "distinct (allRenderTasksToProcess (exec w))" and "x \<in> set (allRenderTasksToProcess (exec w))"
  shows "pendingListens w l =
           count_list (listeners (requests w x)) l +
           pendingListens (w\<lparr>exec := (exec w)\<lparr>allRenderTasksToProcess :=
                               stdset_erase x (allRenderTasksToProcess (exec w))\<rparr>\<rparr>) l"
proof -
  from assms(1) have "removeAll x (allRenderTasksToProcess (exec w)) = remove1 x (allRenderTasksToProcess (exec w))"
    by (simp add: distinct_remove1_removeAll)
  then show ?thesis
    using sum_list_map_remove1[OF assms(2), of "\<lambda>y. count_list (listeners (requests w y)) l"]
    by (simp add: pendingListens_def stdset_erase_def)
qed

text \<open>
  The completion of a task that is to process, has no dependency left and is neither
  ready nor in the thread pool keeps the plan well formed.
\<close>

lemma onTaskFinished_wellPlanned:
  assumes wp: "wellPlanned w []"
      and xall: "x \<in> set (allRenderTasksToProcess (exec w))"
      and xready: "\<forall>ready. dependencyFreeRenders (exec w) = Some ready \<longrightarrow> x \<notin> set ready"
      and xpool: "x \<notin> set (threadPool w)"
      and x0: "getNumDependencies w x = 0"
      and fin: "onTaskFinished env x st w = Inr w'"
  shows "wellPlanned w' []"
proof -
  from wp obtain ready where ready: "dependencyFreeRenders (exec w) = Some ready"
    by (auto simp: wellPlanned_def split: option.splits)
  note wp' = wp[unfolded wellPlanned_def ready option.case]
  from fin obtain w3 w4 r where
    w3: "w3 = removeTaskFromGlobalTaskList x
            (if isFailureRetCode st
             then (clearRenderedDependencies x w)
                    \<lparr>exec := (exec (clearRenderedDependencies x w))\<lparr>status := st\<rparr>\<rparr>
             else clearRenderedDependencies x w)"
    and w4: "removeDependencyLinkFromRequest x w3 = Inr w4"
    and w': "w' = w4\<lparr>render := r, notified := Suc (notified w4)\<rparr>"
    by (rule onTaskFinished_Inr)
  let ?all = "allRenderTasksToProcess (exec w)"
  let ?ls = "listeners (requests w x)"
  have all3: "allRenderTasksToProcess (exec w3) = stdset_erase x ?all"
    using xall by (simp add: w3 removeTaskFromGlobalTaskList_def clearRenderedDependencies_def)
  have d3: "dependencyFreeRenders (exec w3) = Some ready"
    using ready by (simp add: w3 removeTaskFromGlobalTaskList_def clearRenderedDependencies_def)
  have p3: "threadPool w3 = threadPool w"
    by (simp add: w3 removeTaskFromGlobalTaskList_def clearRenderedDependencies_def)
  have lis3: "\<And>y. listeners (requests w3 y) = listeners (requests w y)"
    by (simp add: w3 removeTaskFromGlobalTaskList_def clearRenderedDependencies_def)
  have cnt3: "\<And>y. getNumDependencies w3 y = getNumDependencies w y"
    by (simp add: w3 removeTaskFromGlobalTaskList_def clearRenderedDependencies_def
          getNumDependencies_def)
  have pend3: "pendingListens w3 l =
                 pendingListens (w\<lparr>exec := (exec w)\<lparr>allRenderTasksToProcess := stdset_erase x ?all\<rparr>\<rparr>) l" for l
    by (simp add: pendingListens_def all3 lis3)
  have split: "pendingListens w l = count_list ?ls l + pendingListens w3 l" for l
    using pendingListens_remove[of w x l] wp' xall by (simp add: pend3)
  have nolisten: "x \<notin> set (listeners (requests w y))" if "y \<in> set ?all" for y
  proof -
    from wp' have "int (count_list [] x) + int (pendingListens w x) \<le> getNumDependencies w x"
      by blast
    with x0 have "pendingListens w x = 0" by simp
    with count_list_le_pendingListens[OF that, of x]
    have "count_list (listeners (requests w y)) x = 0" by simp
    then show ?thesis by (simp add: count_list_0_iff)
  qed
  have ineq: "int (count_list ?ls l) + int (pendingListens w3 l) \<le> getNumDependencies w3 l" for l
  proof -
    from wp' have "int (pendingListens w l) \<le> getNumDependencies w l" by simp
    then show ?thesis by (simp add: split cnt3)
  qed
  have wp3: "wellPlanned w3 ?ls"
    unfolding wellPlanned_def d3 option.case all3 p3
    using wp' xall xready[rule_format, OF ready] xpool nolisten ineq
    by (auto simp: cnt3 lis3 stdset_erase_def distinct_removeAll)
  have wp4: "wellPlanned w4 []"
  proof (cases "isFailureRetCode (status (exec w3))")
    case True
    with w4 have "w4 = w3" by (simp add: removeDependencyLinkFromRequest_def)
    with wp3 show ?thesis by (simp add: wellPlanned_weaken)
  next
    case False
    with w4 have "removeDependencyLinkFromRequest_loop x (getListeners w3 x) w3 = Inr w4"
      by (simp add: removeDependencyLinkFromRequest_def)
    then have "removeDependencyLinkFromRequest_loop x ?ls w3 = Inr w4"
      by (simp add: getListeners_def lis3)
    from removeDependencyLinkFromRequest_loop_wellPlanned[OF wp3 this] show ?thesis .
  qed
  show ?thesis
    by (rule wellPlanned_fields_cong[OF wp4]) (simp_all add: w')
qed

lemma run_wellPlanned:
  assumes "wellPlanned w []"
      and "x \<in> set (allRenderTasksToProcess (exec w))"
      and "\<forall>ready. dependencyFreeRenders (exec w) = Some ready \<longrightarrow> x \<notin> set ready"
      and "x \<notin> set (threadPool w)"
      and "getNumDependencies w x = 0"
      and "run env x w = Inr w'"
  shows "wellPlanned w' []"
  using assms(6) unfolding run_def Let_def
  by (rule onTaskFinished_wellPlanned[OF assms(1-5)])

lemma poolRun_wellPlanned:
  assumes wp: "wellPlanned w []" and r: "poolRun env i w = Inr w'"
  shows "wellPlanned w' []"
proof (cases "i < length (threadPool w)")
  case False
  with r wp show ?thesis by (simp add: poolRun_def)
next
  case True
  let ?pool = "threadPool w"
  let ?rest = "take i ?pool @ drop (Suc i) ?pool"
  let ?w0 = "w\<lparr>threadPool := ?rest\<rparr>"
  from wp obtain ready where ready: "dependencyFreeRenders (exec w) = Some ready"
    by (auto simp: wellPlanned_def split: option.splits)
  note wp' = wp[unfolded wellPlanned_def ready option.case]
  from True have split: "?pool = take i ?pool @ ?pool ! i # drop (Suc i) ?pool"
    by (rule id_take_nth_drop)
  from wp' have "distinct ?pool" by simp
  with split have dist: "distinct ?rest" and notin: "?pool ! i \<notin> set ?rest"
    by (metis distinct_append distinct.simps(2) disjoint_insert(1) list.simps(15) UnE
          Un_iff set_append)+
  have sub: "set ?rest \<subseteq> set ?pool"
    by (metis Un_mono set_append set_drop_subset set_take_subset sup.idem)
  have mem: "?pool ! i \<in> set ?pool" using True by simp
  have pend: "\<And>l. pendingListens ?w0 l = pendingListens w l"
    by (rule pendingListens_requests) simp_all
  have wp0: "wellPlanned ?w0 []"
    unfolding wellPlanned_def
    using wp' dist sub ready by (auto simp: pend getNumDependencies_def)
  have run: "run env (?pool ! i) ?w0 = Inr w'"
    using r True by (simp add: poolRun_def)
  show ?thesis
  proof (rule run_wellPlanned[OF wp0 _ _ _ _ run])
    show "?pool ! i \<in> set (allRenderTasksToProcess (exec ?w0))" using wp' mem by auto
    show "\<forall>ready. dependencyFreeRenders (exec ?w0) = Some ready \<longrightarrow> ?pool ! i \<notin> set ready"
      using wp' mem ready by auto
    show "?pool ! i \<notin> set (threadPool ?w0)" using notin by simp
    show "getNumDependencies ?w0 (?pool ! i) = 0"
      using wp' mem by (auto simp: getNumDependencies_def)
  qed
qed

text \<open>Popping the first ready request, and handing it to the thread pool.\<close>

lemma pop_wellPlanned:
  assumes wp: "wellPlanned w []" and ready: "dependencyFreeRenders (exec w) = Some ready"
      and ne: "0 < length ready"
  shows "wellPlanned (w\<lparr>exec := (exec w)\<lparr>dependencyFreeRenders := Some (tl ready)\<rparr>\<rparr>) [] \<and>
         hd ready \<in> set (allRenderTasksToProcess (exec w)) \<and> hd ready \<notin> set (tl ready) \<and>
         hd ready \<notin> set (threadPool w) \<and> getNumDependencies w (hd ready) = 0"
proof -
  from ne obtain x xs where xs: "ready = x # xs" by (cases ready) auto
  note wp' = wp[unfolded wellPlanned_def ready option.case xs]
  let ?w1 = "w\<lparr>exec := (exec w)\<lparr>dependencyFreeRenders := Some xs\<rparr>\<rparr>"
  have pend: "\<And>l. pendingListens ?w1 l = pendingListens w l"
    by (rule pendingListens_requests) simp_all
  have "wellPlanned ?w1 []"
    unfolding wellPlanned_def using wp' by (auto simp: pend getNumDependencies_def)
  with wp' show ?thesis by (auto simp: xs)
qed

lemma dispatch_wellPlanned:
  assumes wp: "wellPlanned w []" and xall: "x \<in> set (allRenderTasksToProcess (exec w))"
      and xready: "\<forall>ready. dependencyFreeRenders (exec w) = Some ready \<longrightarrow> x \<notin> set ready"
      and xpool: "x \<notin> set (threadPool w)" and x0: "getNumDependencies w x = 0"
  shows "wellPlanned (w\<lparr>exec := (exec w)\<lparr>launchedRunnables := launchedRunnables (exec w) @ [x]\<rparr>,
                        threadPool := threadPool w @ [x]\<rparr>) []"
proof -
  from wp obtain ready where ready: "dependencyFreeRenders (exec w) = Some ready"
    by (auto simp: wellPlanned_def split: option.splits)
  note wp' = wp[unfolded wellPlanned_def ready option.case]
  let ?w2 = "w\<lparr>exec := (exec w)\<lparr>launchedRunnables := launchedRunnables (exec w) @ [x]\<rparr>,
                threadPool := threadPool w @ [x]\<rparr>"
  have pend: "\<And>l. pendingListens ?w2 l = pendingListens w l"
    by (rule pendingListens_requests) simp_all
  show ?thesis
    unfolding wellPlanned_def
    using wp' xall xready[rule_format, OF ready] xpool x0 ready
    by (auto simp: pend getNumDependencies_def)
qed

lemma executeAvailableTasks_loop_wellPlanned:
  assumes res: "executeAvailableTasks_loop env disableMT n s w = Some res"
  shows "wellPlanned w [] \<longrightarrow> (\<forall>k w'. res = Inr (k, w') \<longrightarrow> wellPlanned w' [])"
proof (rule executeAvailableTasks_loop.raw_induct
         [where P = "\<lambda>env disableMT n s w res.
                       wellPlanned w [] \<longrightarrow> (\<forall>k w'. res = Inr (k, w') \<longrightarrow> wellPlanned w' [])",
          OF _ res])
  fix f :: "Env \<Rightarrow> bool \<Rightarrow> int \<Rightarrow> int \<Rightarrow> World \<Rightarrow> (Fault + int \<times> World) option"
  fix env disableMT n s w res
  assume IH: "\<And>env disableMT n s w res. f env disableMT n s w = Some res \<Longrightarrow>
                wellPlanned w [] \<longrightarrow> (\<forall>k w'. res = Inr (k, w') \<longrightarrow> wellPlanned w' [])"
  assume body: "(case dependencyFreeRenders (exec w) of
        None \<Rightarrow> Some (Inl NullPointerDereference)
      | Some ready \<Rightarrow>
          (if (n = - 1 \<or> n > 0) \<and> length ready > 0 then
             (let request = hd ready;
                  w1 = w\<lparr>exec := (exec w)\<lparr>dependencyFreeRenders := Some (tl ready)\<rparr>\<rparr>
              in if disableMT then
                   (case run env request w1 of
                      Inl f \<Rightarrow> Some (Inl f)
                    | Inr w2 \<Rightarrow> f env disableMT n s w2)
                 else if fvrStatus (requests w1 request) = eFrameViewRequestStatusNotRendered
                           \<and> \<not> isFailureRetCode (status (exec w1)) then
                   f env disableMT (n - 1) (s + 1)
                     (w1\<lparr>exec := (exec w1)\<lparr>launchedRunnables := launchedRunnables (exec w1) @ [request]\<rparr>,
                         threadPool := threadPool w1 @ [request]\<rparr>)
                 else
                   (case run env request w1 of
                      Inl f \<Rightarrow> Some (Inl f)
                    | Inr w2 \<Rightarrow> f env disableMT n s w2))
           else Some (Inr (s, w)))) = Some res"
  show "wellPlanned w [] \<longrightarrow> (\<forall>k w'. res = Inr (k, w') \<longrightarrow> wellPlanned w' [])"
  proof
    assume wp: "wellPlanned w []"
    then obtain ready where ready: "dependencyFreeRenders (exec w) = Some ready"
      by (auto simp: wellPlanned_def split: option.splits)
    show "\<forall>k w'. res = Inr (k, w') \<longrightarrow> wellPlanned w' []"
    proof (cases "(n = - 1 \<or> 0 < n) \<and> 0 < length ready")
      case False
      with body ready wp show ?thesis by auto
    next
      case True
      let ?x = "hd ready"
      let ?w1 = "w\<lparr>exec := (exec w)\<lparr>dependencyFreeRenders := Some (tl ready)\<rparr>\<rparr>"
      from True have ne: "0 < length ready" and ne': "ready \<noteq> []" and go: "n = - 1 \<or> 0 < n"
        by auto
      note pop = pop_wellPlanned[OF wp ready ne]
      from pop have wp1: "wellPlanned ?w1 []"
        and x1: "?x \<in> set (allRenderTasksToProcess (exec ?w1))"
        and x2: "\<forall>ready'. dependencyFreeRenders (exec ?w1) = Some ready' \<longrightarrow> ?x \<notin> set ready'"
        and x3: "?x \<notin> set (threadPool ?w1)"
        and x4: "getNumDependencies ?w1 ?x = 0"
        by (simp_all add: getNumDependencies_def)
      show ?thesis
      proof (cases "\<not> disableMT \<and> fvrStatus (requests ?w1 ?x) = eFrameViewRequestStatusNotRendered
                     \<and> \<not> isFailureRetCode (status (exec ?w1))")
        case disp: True
        let ?w2 = "?w1\<lparr>exec := (exec ?w1)\<lparr>launchedRunnables := launchedRunnables (exec ?w1) @ [?x]\<rparr>,
                       threadPool := threadPool ?w1 @ [?x]\<rparr>"
        from body ready disp have "f env disableMT (n - 1) (s + 1) ?w2 = Some res"
          by (simp add: go ne' Let_def)
        from IH[OF this] dispatch_wellPlanned[OF wp1 x1 x2 x3 x4] show ?thesis by blast
      next
        case inline: False
        from body ready have b: "(if disableMT then
                   (case run env ?x ?w1 of
                      Inl f \<Rightarrow> Some (Inl f)
                    | Inr w2 \<Rightarrow> f env disableMT n s w2)
                 else if fvrStatus (requests ?w1 ?x) = eFrameViewRequestStatusNotRendered
                           \<and> \<not> isFailureRetCode (status (exec ?w1)) then
                   f env disableMT (n - 1) (s + 1)
                     (?w1\<lparr>exec := (exec ?w1)\<lparr>launchedRunnables := launchedRunnables (exec ?w1) @ [?x]\<rparr>,
                         threadPool := threadPool ?w1 @ [?x]\<rparr>)
                 else
                   (case run env ?x ?w1 of
                      Inl f \<Rightarrow> Some (Inl f)
                    | Inr w2 \<Rightarrow> f env disableMT n s w2)) = Some res"
          by (simp add: go ne' Let_def)
        have red: "(case run env ?x ?w1 of
                      Inl f \<Rightarrow> Some (Inl f)
                    | Inr w2 \<Rightarrow> f env disableMT n s w2) = Some res"
        proof (cases disableMT)
          case True
          with b show ?thesis by simp
        next
          case False
          with inline have "\<not> (fvrStatus (requests ?w1 ?x) = eFrameViewRequestStatusNotRendered
                           \<and> \<not> isFailureRetCode (status (exec ?w1)))" by blast
          with b False show ?thesis by (simp only: if_False)
        qed
        show ?thesis
        proof (cases "run env ?x ?w1")
          case (Inl e)
          with red show ?thesis by auto
        next
          case (Inr w2)
          with red have "f env disableMT n s w2 = Some res" by simp
          from IH[OF this] run_wellPlanned[OF wp1 x1 x2 x3 x4 Inr] show ?thesis by blast
        qed
      qed
    qed
  qed
qed

lemma executionStep_wellPlanned:
  assumes wp: "wellPlanned w []" and st: "executionStep env disableMT e w = Some (Inr w')"
  shows "wellPlanned w' []"
proof (cases e)
  case (ExecuteAvailableTasks n)
  from wp obtain ready where ready: "dependencyFreeRenders (exec w) = Some ready"
    by (auto simp: wellPlanned_def split: option.splits)
  from st ExecuteAvailableTasks
  obtain res where r: "executeAvailableTasks env disableMT n w = Some res"
    and m: "map_sum id snd res = Inr w'" by auto
  from m obtain k where "res = Inr (k, w')" by (cases res) auto
  with r ready have "executeAvailableTasks_loop env disableMT n 0 w = Some (Inr (k, w'))"
    by (simp add: executeAvailableTasks_def)
  from executeAvailableTasks_loop_wellPlanned[OF this] wp show ?thesis by blast
next
  case (PoolRun i)
  with st have "poolRun env i w = Inr w'" by simp
  from poolRun_wellPlanned[OF wp this] show ?thesis .
qed

lemma executionSteps_wellPlanned:
  "wellPlanned w [] \<Longrightarrow> executionSteps env disableMT es w = Some (Inr w') \<Longrightarrow> wellPlanned w' []"
proof (induction es arbitrary: w)
  case Nil
  then show ?case by simp
next
  case (Cons e es)
  from Cons.prems(2) obtain w1 where s1: "executionStep env disableMT e w = Some (Inr w1)"
    and rest: "executionSteps env disableMT es w1 = Some (Inr w')"
    by (auto split: option.splits sum.splits)
  from Cons.IH[OF executionStep_wellPlanned[OF Cons.prems(1) s1] rest] show ?case .
qed

lemma addTaskToRender_readyInvariant:
  assumes inv: "readyInvariant w" and add: "addTaskToRender r w = Inr w1"
  shows "readyInvariant w1 \<and>
         set (allRenderTasksToProcess (exec w1)) = insert r (set (allRenderTasksToProcess (exec w))) \<and>
         (\<forall>ready. dependencyFreeRenders (exec w) = Some ready \<longrightarrow>
            (\<exists>ready1. dependencyFreeRenders (exec w1) = Some ready1 \<and>
               set ready1 = (if getNumDependencies w r = 0 then insert r (set ready) else set ready)))"
proof (cases "getNumDependencies w r = 0")
  case True
  with add obtain ready where ready: "dependencyFreeRenders (exec w) = Some ready"
    and w1: "w1 = w\<lparr>exec := (exec w)\<lparr>allRenderTasksToProcess :=
                          stdset_insert r (allRenderTasksToProcess (exec w)),
                        dependencyFreeRenders := Some (stdset_insert r ready)\<rparr>\<rparr>"
    by (auto simp: addTaskToRender_def Let_def getNumDependencies_def split: option.splits)
  from inv ready True show ?thesis
    by (auto simp: readyInvariant_def w1 getNumDependencies_def)
next
  case False
  with add have w1: "w1 = w\<lparr>exec := (exec w)\<lparr>allRenderTasksToProcess :=
                          stdset_insert r (allRenderTasksToProcess (exec w))\<rparr>\<rparr>"
    by (auto simp: addTaskToRender_def Let_def getNumDependencies_def)
  from inv False show ?thesis
    by (auto simp: readyInvariant_def w1 getNumDependencies_def split: option.splits)
qed

lemma removeDependencyLinkFromRequest_wellPlanned:
  assumes wp: "wellPlanned w (getListeners w request)"
      and rm: "removeDependencyLinkFromRequest request w = Inr w2"
  shows "wellPlanned w2 []"
proof (cases "isFailureRetCode (status (exec w))")
  case True
  with rm have "w2 = w" by (simp add: removeDependencyLinkFromRequest_def)
  with wp show ?thesis by (simp add: wellPlanned_weaken)
next
  case False
  with rm have "removeDependencyLinkFromRequest_loop request (getListeners w request) w = Inr w2"
    by (simp add: removeDependencyLinkFromRequest_def)
  from removeDependencyLinkFromRequest_loop_wellPlanned[OF wp this] show ?thesis .
qed

text \<open>
  C1: \<open>addTaskToRender\<close> keeps the ready set a subset of the tasks to process whose
  members have no dependency left: it inserts the request into the tasks to process,
  and into the ready set exactly when the request has no dependency left. The
  promotion of listeners keeps a well-formed plan well formed: a listener enters the
  ready set when its last dependency is marked as rendered. So from a well-formed plan
  every sequence of calls of \<open>executeAvailableTasks\<close> and of runs of the thread pool
  that returns leaves a well-formed plan, in which the ready set is a subset of the
  tasks to process and every ready request has no dependency left.
\<close>

theorem ready_set_invariant:
  "(readyInvariant w \<and> addTaskToRender r w = Inr w1 \<longrightarrow>
      readyInvariant w1 \<and>
      set (allRenderTasksToProcess (exec w1)) = insert r (set (allRenderTasksToProcess (exec w))) \<and>
      (\<forall>ready. dependencyFreeRenders (exec w) = Some ready \<longrightarrow>
         (\<exists>ready1. dependencyFreeRenders (exec w1) = Some ready1 \<and>
            set ready1 = (if getNumDependencies w r = 0 then insert r (set ready) else set ready)))) \<and>
   (wellPlanned w (getListeners w request) \<and> removeDependencyLinkFromRequest request w = Inr w2 \<longrightarrow>
      wellPlanned w2 [] \<and> readyInvariant w2) \<and>
   (wellPlanned w [] \<and> executionSteps env disableMT steps w = Some (Inr w') \<longrightarrow>
      wellPlanned w' [] \<and> readyInvariant w')"
proof (intro conjI impI)
  assume a: "readyInvariant w \<and> addTaskToRender r w = Inr w1"
  then have inv: "readyInvariant w" and add: "addTaskToRender r w = Inr w1" by simp_all
  note A = addTaskToRender_readyInvariant[OF inv add]
  from A show "readyInvariant w1" by blast
  from A show "set (allRenderTasksToProcess (exec w1)) = insert r (set (allRenderTasksToProcess (exec w)))"
    by blast
  from A show "\<forall>ready. dependencyFreeRenders (exec w) = Some ready \<longrightarrow>
         (\<exists>ready1. dependencyFreeRenders (exec w1) = Some ready1 \<and>
            set ready1 = (if getNumDependencies w r = 0 then insert r (set ready) else set ready))"
    by blast
next
  assume b: "wellPlanned w (getListeners w request) \<and> removeDependencyLinkFromRequest request w = Inr w2"
  then have "wellPlanned w2 []"
    using removeDependencyLinkFromRequest_wellPlanned[of w request w2] by blast
  then show "wellPlanned w2 []" and "readyInvariant w2"
    by (simp_all add: wellPlanned_readyInvariant)
next
  assume c: "wellPlanned w [] \<and> executionSteps env disableMT steps w = Some (Inr w')"
  then have "wellPlanned w' []"
    using executionSteps_wellPlanned[of w env disableMT steps w'] by blast
  then show "wellPlanned w' []" and "readyInvariant w'"
    by (simp_all add: wellPlanned_readyInvariant)
qed

lemma pendingListens_diamond:
  "pendingListens diamond l = (if l = 2 \<or> l = 3 then 1 else if l = 4 then 2 else 0)"
  by (simp add: pendingListens_def diamond_fields diamondRequests_simps fvr0_fields)

lemma getNumDependencies_diamond:
  "getNumDependencies diamond l = (if l = 2 \<or> l = 3 then 1 else if l = 4 then 2 else 0)"
  by (simp add: getNumDependencies_def diamond_fields diamondRequests_def fvr0_fields)

lemma wellPlanned_diamond: "wellPlanned diamond []"
  unfolding wellPlanned_def
  by (simp add: diamond_fields pendingListens_diamond getNumDependencies_diamond
        diamondRequests_def fvr0_fields)

theorem ready_set_invariant_witness:
  "readyInvariant diamond \<and>
   \<not> isl (addTaskToRender 5 diamond) \<and>
   readyInvariant (projr (addTaskToRender 5 diamond)) \<and>
   dependencyFreeRenders (exec (projr (addTaskToRender 5 diamond))) = Some [1, 5] \<and>
   wellPlanned
     (diamond\<lparr>exec := (exec diamond)\<lparr>dependencyFreeRenders := Some [],
                                      allRenderTasksToProcess := [2, 3, 4]\<rparr>\<rparr>)
     (getListeners
        (diamond\<lparr>exec := (exec diamond)\<lparr>dependencyFreeRenders := Some [],
                                         allRenderTasksToProcess := [2, 3, 4]\<rparr>\<rparr>) 1) \<and>
   \<not> isl (removeDependencyLinkFromRequest 1
           (diamond\<lparr>exec := (exec diamond)\<lparr>dependencyFreeRenders := Some [],
                                            allRenderTasksToProcess := [2, 3, 4]\<rparr>\<rparr>)) \<and>
   readyInvariant
     (projr (removeDependencyLinkFromRequest 1
               (diamond\<lparr>exec := (exec diamond)\<lparr>dependencyFreeRenders := Some [],
                                                allRenderTasksToProcess := [2, 3, 4]\<rparr>\<rparr>))) \<and>
   dependencyFreeRenders
     (exec (projr (removeDependencyLinkFromRequest 1
               (diamond\<lparr>exec := (exec diamond)\<lparr>dependencyFreeRenders := Some [],
                                                allRenderTasksToProcess := [2, 3, 4]\<rparr>\<rparr>))))
     = Some [2, 3] \<and>
   wellPlanned diamond [] \<and>
   map_option (map_sum id (\<lambda>w. (dependencyFreeRenders (exec w), allRenderTasksToProcess (exec w),
                                threadPool w, outputRequest (render w))))
     (executionSteps env0 False
        [ExecuteAvailableTasks (- 1), PoolRun 0, ExecuteAvailableTasks 2, PoolRun 1, PoolRun 0,
         ExecuteAvailableTasks 1, PoolRun 0] diamond)
     = Some (Inr (Some [], [], [], Some 4)) \<and>
   readyInvariant
     (projr (the (executionSteps env0 False
        [ExecuteAvailableTasks (- 1), PoolRun 0, ExecuteAvailableTasks 2, PoolRun 1, PoolRun 0,
         ExecuteAvailableTasks 1, PoolRun 0] diamond)))"
proof -
  let ?b = "diamond\<lparr>exec := (exec diamond)\<lparr>dependencyFreeRenders := Some [],
                                            allRenderTasksToProcess := [2, 3, 4]\<rparr>\<rparr>"
  let ?steps = "[ExecuteAvailableTasks (- 1), PoolRun 0, ExecuteAvailableTasks 2, PoolRun 1, PoolRun 0,
                 ExecuteAvailableTasks 1, PoolRun 0]"
  have inv: "readyInvariant diamond"
    using wellPlanned_diamond by (rule wellPlanned_readyInvariant)
  have "\<exists>w1. addTaskToRender 5 diamond = Inr w1 \<and> dependencyFreeRenders (exec w1) = Some [1, 5]"
    by (simp add: addTaskToRender_def getNumDependencies_def diamond_fields diamondRequests_def
          fvr0_fields stdset_insert_def)
  then obtain w1 where w1: "addTaskToRender 5 diamond = Inr w1"
    and r1: "dependencyFreeRenders (exec w1) = Some [1, 5]" by blast
  note A = ready_set_invariant[where w = diamond and r = 5 and ?w1.0 = w1,
             THEN conjunct1, THEN mp, OF conjI[OF inv w1]]
  have lb: "getListeners ?b 1 = [2, 3]"
    by (simp add: getListeners_def diamond_fields diamondRequests_simps fvr0_fields)
  have pb: "pendingListens ?b l = (if l = 4 then 2 else 0)" for l
    by (simp add: pendingListens_def diamond_fields diamondRequests_simps fvr0_fields)
  have nb: "getNumDependencies ?b l = (if l = 2 \<or> l = 3 then 1 else if l = 4 then 2 else 0)" for l
    by (simp add: getNumDependencies_def diamond_fields diamondRequests_def fvr0_fields)
  have wb: "wellPlanned ?b (getListeners ?b 1)"
    unfolding lb wellPlanned_def
    by (simp add: diamond_fields pb nb diamondRequests_def fvr0_fields)
  have "\<exists>w2. removeDependencyLinkFromRequest 1 ?b = Inr w2 \<and>
              dependencyFreeRenders (exec w2) = Some [2, 3]"
    by (simp add: removeDependencyLinkFromRequest_def getListeners_def diamond_fields
          isFailureRetCode_def markDependencyAsRendered_def diamondRequests_simps fvr0_fields
          stdset_insert_def Let_def)
  then obtain w2 where w2: "removeDependencyLinkFromRequest 1 ?b = Inr w2"
    and r2: "dependencyFreeRenders (exec w2) = Some [2, 3]" by blast
  note B = ready_set_invariant[where w = ?b and request = 1 and ?w2.0 = w2,
             THEN conjunct2, THEN conjunct1, THEN mp, OF conjI[OF wb w2]]
  have "\<exists>w'. executionSteps env0 False ?steps diamond = Some (Inr w') \<and>
             dependencyFreeRenders (exec w') = Some [] \<and> allRenderTasksToProcess (exec w') = [] \<and>
             threadPool w' = [] \<and> outputRequest (render w') = Some 4"
    by (simp add: executeAvailableTasks_def executeAvailableTasks_loop.simps diamond_fields
        diamondRequests_simps poolRun_def
        fvr0_fields isFailureRetCode_def run_def onTaskFinished_def getStatus_def
        clearRenderedDependencies_def removeTaskFromGlobalTaskList_def
        removeDependencyLinkFromRequest_def getListeners_def setResults_Some
        markDependencyAsRendered_def stdset_insert_def
        env0_fields args0_fields Let_def stdset_erase_def)
  then obtain w' where w': "executionSteps env0 False ?steps diamond = Some (Inr w')"
    and r3: "dependencyFreeRenders (exec w') = Some []" "allRenderTasksToProcess (exec w') = []"
            "threadPool w' = []" "outputRequest (render w') = Some 4" by blast
  note C = ready_set_invariant[where w = diamond and env = env0 and disableMT = False
               and steps = ?steps and w' = w',
             THEN conjunct2, THEN conjunct2, THEN mp, OF conjI[OF wellPlanned_diamond w']]
  from inv A B C wb wellPlanned_diamond r1 r2 r3 show ?thesis
    unfolding w1 w2 w' by simp
qed

end
